theory Spec2Isabelle
  imports Complex_Main "HOL-Library.Word"
begin

section \<open>Tensors\<close>

text \<open>
  A dense channels-last tensor of rank four, as every feature map of the network is:
  its four extents (batch, height, width, channels) and its elements by index. Only
  indices inside the extents are ever read.
\<close>

record 'a tensor =
  nb :: nat
  nh :: nat
  nw :: nat
  nc :: nat
  elem :: "nat \<Rightarrow> nat \<Rightarrow> nat \<Rightarrow> nat \<Rightarrow> 'a"

text \<open>
  A rank-three tensor of integer codes, shape (batch, height, width): a discrete image,
  a per-pixel target, or a class label map.
\<close>

record codes =
  cb :: nat
  ch :: nat
  cw :: nat
  code :: "nat \<Rightarrow> nat \<Rightarrow> nat \<Rightarrow> int"

section \<open>The training driver (scripts/train.py)\<close>

subsection \<open>The per-pixel target\<close>

text \<open>
  \<^verbatim>\<open>tf.cast(tf.cast(example["image"], tf.float32) / 25.6, tf.int32)\<close>:
  the pixel (an unsigned byte) becomes a binary32 number exactly, is divided by the
  binary32 constant nearest to 25.6, which is 13421773 / 2^19, the quotient is rounded
  to the nearest binary32 number (ties to even), and the cast to int32 drops the
  fraction. A positive binary32 number is kept as a significand and a binary exponent.
\<close>

fun bitlen :: "nat \<Rightarrow> nat" where
  "bitlen n = (if n = 0 then 0 else Suc (bitlen (n div 2)))"

declare bitlen.simps [simp del]

definition shl :: "nat \<Rightarrow> int \<Rightarrow> nat" where
  "shl n e = (if 0 \<le> e then n * 2 ^ nat e else n)"

definition round_pick :: "nat \<Rightarrow> nat \<Rightarrow> nat \<Rightarrow> nat" where
  "round_pick q r d =
     (if 2 * r < d then q else if d < 2 * r then q + 1 else if even q then q else q + 1)"

definition round_half_even :: "nat \<Rightarrow> nat \<Rightarrow> nat" where
  "round_half_even n d = round_pick (n div d) (n mod d) d"

text \<open>The exponent \<open>e\<close> of a quotient: \<open>2^e \<le> n / d < 2^(e + 1)\<close>.\<close>

definition pick_exponent :: "nat \<Rightarrow> nat \<Rightarrow> int \<Rightarrow> int" where
  "pick_exponent n d e0 = (if shl d e0 \<le> shl n (- e0) then e0 else e0 - 1)"

definition quot_exponent :: "nat \<Rightarrow> nat \<Rightarrow> int" where
  "quot_exponent n d = pick_exponent n d (int (bitlen n) - int (bitlen d))"

text \<open>The quotient with a significand of 24 bits, for a result in the normal range.\<close>

definition f32_round :: "nat \<Rightarrow> nat \<Rightarrow> int \<Rightarrow> nat \<times> int" where
  "f32_round n d e = (round_half_even (shl n (23 - e)) (shl d (e - 23)), e - 23)"

definition f32_quot :: "nat \<Rightarrow> nat \<Rightarrow> nat \<times> int" where
  "f32_quot n d = (if n = 0 then (0, 0) else f32_round n d (quot_exponent n d))"

definition f32_div :: "nat \<times> int \<Rightarrow> nat \<times> int \<Rightarrow> nat \<times> int" where
  "f32_div x y = f32_quot (shl (fst x) (snd x - snd y)) (shl (fst y) (snd y - snd x))"

definition f32_25_6 :: "nat \<times> int" where
  "f32_25_6 = (13421773, - 19)"

definition scale2 :: "nat \<Rightarrow> int \<Rightarrow> nat" where
  "scale2 n e = (if 0 \<le> e then n * 2 ^ nat e else n div 2 ^ nat (- e))"

definition f32_to_int32 :: "nat \<times> int \<Rightarrow> int" where
  "f32_to_int32 x = int (scale2 (fst x) (snd x))"

definition channel_digit :: "8 word \<Rightarrow> int" where
  "channel_digit p = f32_to_int32 (f32_div (unat p, 0) f32_25_6)"

text \<open>
  \<^verbatim>\<open>images[:, :, :, 0] + images[:, :, :, 1] * 10 + images[:, :, :, 2] * 100\<close>
  on int32 values.
\<close>

definition pack_digits :: "8 word \<Rightarrow> 8 word \<Rightarrow> 8 word \<Rightarrow> int" where
  "pack_digits r g b = channel_digit r + channel_digit g * 10 + channel_digit b * 100"

definition targets :: "8 word tensor \<Rightarrow> codes" where
  "targets img =
     \<lparr>cb = nb img, ch = nh img, cw = nw img,
      code = (\<lambda>b r c. pack_digits (elem img b r c 0) (elem img b r c 1) (elem img b r c 2))\<rparr>"

subsection \<open>The loop\<close>

text \<open>
  The one call that builds the network, as written: the name of the factory, its
  positional arguments and its keyword arguments.
\<close>

datatype arg = Num nat | Flag bool | Rate real

record call =
  func :: string
  args :: "arg list"
  kwargs :: "(string \<times> arg) list"

definition driver_model :: call where
  "driver_model =
     \<lparr>func = ''ConditionalPixelCNNPlusPlus'',
      args = [Num 1000, Num 32],
      kwargs = [(''image_height'', Num 32), (''image_width'', Num 32),
                (''conditional_height'', Num 1), (''conditional_width'', Num 1),
                (''num_preprocess_layers'', Num 5), (''num_modules'', Num 3),
                (''num_layers_per_module'', Num 6), (''filters'', Num 64),
                (''dropout_rate'', Rate (1 / 10)), (''class_conditional'', Flag True),
                (''num_classes'', Num 10)]\<rparr>"

text \<open>
  One element of the batched dataset: the images (unsigned bytes) and the labels, which
  the dataset gives as 64-bit integers.
\<close>

record example =
  image :: "8 word tensor"
  label :: "nat \<Rightarrow> 64 word"

text \<open>
  \<^verbatim>\<open>tf.cast(example["label"], tf.int32)[:, tf.newaxis, tf.newaxis]\<close>: the cast
  keeps the low 32 bits, read as a signed number.
\<close>

definition labels_of :: "example \<Rightarrow> codes" where
  "labels_of ex =
     \<lparr>cb = nb (image ex), ch = 1, cw = 1,
      code = (\<lambda>b r c. sint (ucast (label ex b) :: 32 word))\<rparr>"

text \<open>
  What the script has done so far: the directories made, the networks built, the
  (targets, labels) of every optimizer step applied to the model's weights, the
  iterations printed, every checkpoint write as (iteration, path), and the files
  written, each holding the architecture and the weights after so many steps.
\<close>

record driver =
  dirs :: "string list"
  networks :: "call list"
  trained_on :: "(codes \<times> codes) list"
  printed :: "nat list"
  saved :: "(nat \<times> string) list"
  files :: "string \<rightharpoonup> call \<times> nat"

definition model_save :: "string \<Rightarrow> nat \<Rightarrow> driver \<Rightarrow> driver" where
  "model_save path i st =
     st\<lparr>saved := saved st @ [(i, path)],
        files := (files st)(path \<mapsto> (last (networks st), length (trained_on st)))\<rparr>"

definition minimize :: "nat \<Rightarrow> codes \<Rightarrow> codes \<Rightarrow> driver \<Rightarrow> driver" where
  "minimize i images labels st =
     st\<lparr>printed := printed st @ [i], trained_on := trained_on st @ [(images, labels)]\<rparr>"

definition train_iteration :: "nat \<times> example \<Rightarrow> driver \<Rightarrow> driver" where
  "train_iteration ie st =
     (let i = fst ie; ex = snd ie;
          images = targets (image ex);
          labels = labels_of ex;
          st = minimize i images labels st
      in if i mod 100 = 0 then model_save ''models/model.h5'' i st else st)"

definition start :: driver where
  "start = \<lparr>dirs = [''models''], networks = [driver_model], trained_on = [],
            printed = [], saved = [], files = Map.empty\<rparr>"

definition main :: "example list \<Rightarrow> driver" where
  "main train_ds = fold train_iteration (enumerate 0 train_ds) start"


section \<open>Tensor operations of the framework\<close>

text \<open>
  \<^verbatim>\<open>tf.pad(z, paddings, constant_values=v)\<close> on a rank-four tensor: for every axis,
  how many entries are put before and after.
\<close>

definition tf_pad ::
  "'a tensor \<Rightarrow> nat \<times> nat \<Rightarrow> nat \<times> nat \<Rightarrow> nat \<times> nat \<Rightarrow> nat \<times> nat \<Rightarrow> 'a \<Rightarrow> 'a tensor" where
  "tf_pad z pb ph pw pc v =
     \<lparr>nb = fst pb + nb z + snd pb, nh = fst ph + nh z + snd ph,
      nw = fst pw + nw z + snd pw, nc = fst pc + nc z + snd pc,
      elem = (\<lambda>b r c k.
        if fst pb \<le> b \<and> b < fst pb + nb z \<and> fst ph \<le> r \<and> r < fst ph + nh z \<and>
           fst pw \<le> c \<and> c < fst pw + nw z \<and> fst pc \<le> k \<and> k < fst pc + nc z
        then elem z (b - fst pb) (r - fst ph) (c - fst pw) (k - fst pc) else v)\<rparr>"

text \<open>
  \<^verbatim>\<open>layers.Conv2D(filters, kernel_size, strides=(1, 1), padding='valid')\<close> with
  kernel \<open>w\<close> (row, column, input channel, output channel) and bias \<open>bs\<close>. Every use
  below either pads by the kernel's extent less one first or has a 1 by 1 kernel, so the
  truncated subtraction never hides a negative extent.
\<close>

definition conv2d ::
  "(nat \<Rightarrow> nat \<Rightarrow> nat \<Rightarrow> nat \<Rightarrow> 'a) \<Rightarrow> (nat \<Rightarrow> 'a) \<Rightarrow> nat \<Rightarrow> nat \<times> nat \<Rightarrow>
   'a::comm_ring_1 tensor \<Rightarrow> 'a tensor" where
  "conv2d w bs n ks x =
     \<lparr>nb = nb x, nh = nh x + 1 - fst ks, nw = nw x + 1 - snd ks, nc = n,
      elem = (\<lambda>b r c m. bs m +
        (\<Sum>i\<leftarrow>[0..<fst ks]. \<Sum>j\<leftarrow>[0..<snd ks]. \<Sum>k\<leftarrow>[0..<nc x].
           elem x b (r + i) (c + j) k * w i j k m))\<rparr>"

text \<open>
  \<^verbatim>\<open>layers.Conv2DTranspose(filters, kernel_size, strides, padding='same')\<close>: the
  output has the input's extents times the strides; the kernel is indexed (row, column,
  output channel, input channel).
\<close>

definition conv2d_transpose ::
  "(nat \<Rightarrow> nat \<Rightarrow> nat \<Rightarrow> nat \<Rightarrow> 'a) \<Rightarrow> (nat \<Rightarrow> 'a) \<Rightarrow> nat \<Rightarrow> nat \<times> nat \<Rightarrow> nat \<times> nat \<Rightarrow>
   'a::comm_ring_1 tensor \<Rightarrow> 'a tensor" where
  "conv2d_transpose w bs n ks st x =
     \<lparr>nb = nb x, nh = nh x * fst st, nw = nw x * snd st, nc = n,
      elem = (\<lambda>b r c m. bs m +
        (\<Sum>i\<leftarrow>[0..<fst ks]. \<Sum>j\<leftarrow>[0..<snd ks]. \<Sum>k\<leftarrow>[0..<nc x].
           (let y = r + (fst ks - fst st) div 2; x' = c + (snd ks - snd st) div 2
            in if i \<le> y \<and> (y - i) mod fst st = 0 \<and> (y - i) div fst st < nh x \<and>
                  j \<le> x' \<and> (x' - j) mod snd st = 0 \<and> (x' - j) div snd st < nw x
               then elem x b ((y - i) div fst st) ((x' - j) div snd st) k * w i j m k
               else 0)))\<rparr>"

text \<open>
  A placeholder made by \<^verbatim>\<open>layers.Input(shape=...)\<close> with no dtype has the dtype
  float32. An integer fed to it becomes the nearest binary32 number, ties to even: a
  magnitude of at most 24 bits is kept, and a longer one is rounded to a multiple of
  2 to the number of bits beyond 24. The result is an integer again and is kept as
  one. (A magnitude beyond the binary32 range becomes infinite; the number kept for it
  here is far outside the int32 range, like infinity.)
\<close>

definition float32_of_nat :: "nat \<Rightarrow> nat" where
  "float32_of_nat n =
     (if bitlen n \<le> 24 then n
      else round_half_even n (2 ^ (bitlen n - 24)) * 2 ^ (bitlen n - 24))"

definition cast_float32 :: "int \<Rightarrow> int" where
  "cast_float32 i =
     (if i < 0 then - int (float32_of_nat (nat (- i))) else int (float32_of_nat (nat i)))"

definition feed_float32 :: "codes \<Rightarrow> codes" where
  "feed_float32 z = z\<lparr>code := (\<lambda>b r c. cast_float32 (code z b r c))\<rparr>"

text \<open>
  \<^verbatim>\<open>math_ops.cast(inputs, 'int32')\<close>, which the Embedding layer applies to an
  input that is not of an integer dtype, on a float that holds an integer: that integer
  if it is an int32. For the others the conversion is not defined; the processor's
  conversion gives the least int32, which is taken here.
\<close>

definition cast_int32 :: "int \<Rightarrow> int" where
  "cast_int32 v = (if - (2 ^ 31) \<le> v \<and> v < 2 ^ 31 then v else - (2 ^ 31))"

text \<open>
  \<^verbatim>\<open>layers.TimeDistributed(layers.Embedding(input_dim, output_dim))\<close> on a float32
  tensor of codes: every code is cast to int32 and selects a row of the table, and an
  index outside the table is an error of the lookup.
\<close>

definition embedding_lookup :: "(nat \<Rightarrow> nat \<Rightarrow> 'a) \<Rightarrow> nat \<Rightarrow> int \<Rightarrow> (nat \<Rightarrow> 'a) option" where
  "embedding_lookup tbl input_dim i =
     (if 0 \<le> i \<and> i < int input_dim then Some (tbl (nat i)) else None)"

definition embedding :: "(nat \<Rightarrow> nat \<Rightarrow> 'a) \<Rightarrow> nat \<Rightarrow> nat \<Rightarrow> codes \<Rightarrow> 'a tensor option" where
  "embedding tbl input_dim output_dim z =
     (if list_all (\<lambda>b. list_all (\<lambda>r. list_all (\<lambda>c.
            embedding_lookup tbl input_dim (cast_int32 (code z b r c)) \<noteq> None)
          [0..<cw z]) [0..<ch z]) [0..<cb z]
      then Some \<lparr>nb = cb z, nh = ch z, nw = cw z, nc = output_dim,
                 elem = (\<lambda>b r c.
                   the (embedding_lookup tbl input_dim (cast_int32 (code z b r c))))\<rparr>
      else None)"

text \<open>
  \<^verbatim>\<open>layers.add([x, y])\<close>: on every axis the operands have the same extent or one of
  them has the extent 1, and an operand of extent 1 is repeated along the axis
  (broadcasting); other operands are an error.
\<close>

definition broadcastable :: "nat \<Rightarrow> nat \<Rightarrow> bool" where
  "broadcastable n m \<longleftrightarrow> n = m \<or> n = 1 \<or> m = 1"

definition broadcast :: "nat \<Rightarrow> nat \<Rightarrow> nat" where
  "broadcast n m = (if n = 1 then m else n)"

definition repeated :: "nat \<Rightarrow> nat \<Rightarrow> nat" where
  "repeated n i = (if n = 1 then 0 else i)"

definition add :: "'a::comm_ring_1 tensor \<Rightarrow> 'a tensor \<Rightarrow> 'a tensor option" where
  "add x y =
     (if broadcastable (nb x) (nb y) \<and> broadcastable (nh x) (nh y) \<and>
         broadcastable (nw x) (nw y) \<and> broadcastable (nc x) (nc y)
      then Some \<lparr>nb = broadcast (nb x) (nb y), nh = broadcast (nh x) (nh y),
                 nw = broadcast (nw x) (nw y), nc = broadcast (nc x) (nc y),
                 elem = (\<lambda>b r c k.
                   elem x (repeated (nb x) b) (repeated (nh x) r) (repeated (nw x) c)
                     (repeated (nc x) k)
                   + elem y (repeated (nb y) b) (repeated (nh y) r) (repeated (nw y) c)
                       (repeated (nc y) k))\<rparr>
      else None)"

text \<open>
  Dropout multiplies by a mask: 1 everywhere outside training, and in training 0 at the
  dropped units and the rescaling factor at the others.
\<close>

definition dropout :: "(nat \<Rightarrow> nat \<Rightarrow> nat \<Rightarrow> nat \<Rightarrow> 'a) \<Rightarrow> 'a::comm_ring_1 tensor \<Rightarrow> 'a tensor" where
  "dropout keep x = x\<lparr>elem := (\<lambda>b r c k. elem x b r c k * keep b r c k)\<rparr>"

section \<open>The building blocks (pixelcnn/ops.py, pixelcnn/gated_resnet.py)\<close>

text \<open>
  Modelled from the spec: \<^verbatim>\<open>ops.concat_elu\<close> is not among the sources. The spec,
  4.2: an input of channel depth D gives an output of depth 2D, the ELU of the input
  and, separately, of its negation, concatenated along the channel axis. The ELU itself
  is the parameter \<open>f\<close>.
\<close>

definition concat_elu :: "('a \<Rightarrow> 'a) \<Rightarrow> 'a::comm_ring_1 tensor \<Rightarrow> 'a tensor" where
  "concat_elu f x =
     x\<lparr>nc := 2 * nc x,
       elem := (\<lambda>b r c k. if k < nc x then f (elem x b r c k) else f (- elem x b r c (k - nc x)))\<rparr>"

text \<open>
  Modelled from the spec: \<^verbatim>\<open>ops.down_shift\<close> is not among the sources. The
  spec, 4.1: insert a zero row on top and drop the opposite edge.
\<close>

definition down_shift :: "'a::comm_ring_1 tensor \<Rightarrow> 'a tensor" where
  "down_shift x = (let z = tf_pad x (0, 0) (1, 0) (0, 0) (0, 0) 0 in z\<lparr>nh := nh z - 1\<rparr>)"

text \<open>
  Modelled from the spec: \<^verbatim>\<open>ops.right_shift\<close> is not among the sources. The
  spec, 4.1: insert a zero column on the left and drop the opposite edge.
\<close>

definition right_shift :: "'a::comm_ring_1 tensor \<Rightarrow> 'a tensor" where
  "right_shift x = (let z = tf_pad x (0, 0) (0, 0) (1, 0) (0, 0) 0 in z\<lparr>nw := nw z - 1\<rparr>)"

text \<open>
  Modelled from the spec: \<^verbatim>\<open>ops.down_shifted_conv2d\<close> is not among the
  sources. The spec, 4.1: the input is padded asymmetrically before a normal
  convolution, so that the output has the input's spatial size and the receptive field
  of the output at (r, c) covers no row below r. The padding that does this for a kernel
  of kh rows and kw columns, centred on the column, is kh - 1 rows of zeros on top and
  (kw - 1) div 2 columns on either side.
\<close>

definition down_shifted_conv2d ::
  "(nat \<Rightarrow> nat \<Rightarrow> nat \<Rightarrow> nat \<Rightarrow> 'a) \<Rightarrow> (nat \<Rightarrow> 'a) \<Rightarrow> nat \<Rightarrow> nat \<times> nat \<Rightarrow>
   'a::comm_ring_1 tensor \<Rightarrow> 'a tensor" where
  "down_shifted_conv2d w bs n kernel_size x =
     conv2d w bs n kernel_size
       (tf_pad x (0, 0) (fst kernel_size - 1, 0)
          ((snd kernel_size - 1) div 2, (snd kernel_size - 1) div 2) (0, 0) 0)"

text \<open>
  Modelled from the spec: \<^verbatim>\<open>ops.down_right_shifted_conv2d\<close> is not among the
  sources. The spec, 4.1: as before, with a receptive field that covers no row below r
  and no column to the right of c: the padding is kh - 1 rows of zeros on top and
  kw - 1 columns on the left.
\<close>

definition down_right_shifted_conv2d ::
  "(nat \<Rightarrow> nat \<Rightarrow> nat \<Rightarrow> nat \<Rightarrow> 'a) \<Rightarrow> (nat \<Rightarrow> 'a) \<Rightarrow> nat \<Rightarrow> nat \<times> nat \<Rightarrow>
   'a::comm_ring_1 tensor \<Rightarrow> 'a tensor" where
  "down_right_shifted_conv2d w bs n kernel_size x =
     conv2d w bs n kernel_size
       (tf_pad x (0, 0) (fst kernel_size - 1, 0) (snd kernel_size - 1, 0) (0, 0) 0)"

text \<open>The causal convolution handed to a gated block as \<^verbatim>\<open>conv2d=\<close>.\<close>

datatype causal = By_down_shifted_conv2d | By_down_right_shifted_conv2d

fun causal_conv2d ::
  "causal \<Rightarrow> (nat \<Rightarrow> nat \<Rightarrow> nat \<Rightarrow> nat \<Rightarrow> 'a) \<Rightarrow> (nat \<Rightarrow> 'a) \<Rightarrow> nat \<Rightarrow> nat \<times> nat \<Rightarrow>
   'a::comm_ring_1 tensor \<Rightarrow> 'a tensor" where
  "causal_conv2d By_down_shifted_conv2d = down_shifted_conv2d"
| "causal_conv2d By_down_right_shifted_conv2d = down_right_shifted_conv2d"

text \<open>
  Modelled from the spec: the gate inside \<^verbatim>\<open>gated_resnet.gated_resnet\<close>, which
  is not among the sources. The spec, 4.3, step 5: the tensor is split in two halves
  along the channels, and the first half is multiplied by the sigmoid \<open>g\<close> of the
  second.
\<close>

definition gate :: "('a \<Rightarrow> 'a) \<Rightarrow> 'a::comm_ring_1 tensor \<Rightarrow> 'a tensor" where
  "gate g x =
     x\<lparr>nc := nc x div 2,
       elem := (\<lambda>b r c k. elem x b r c k * g (elem x b r c (k + nc x div 2)))\<rparr>"

text \<open>
  Modelled from the spec: \<^verbatim>\<open>gated_resnet.gated_resnet\<close> is not among the sources.
  The spec, 4.3, with F the channel depth of the primary stream \<open>x\<close>:
  (1) nonlinearity, then the causal convolution to width F;
  (2) if a second stream \<open>a\<close> is present, its nonlinearity and a 1 by 1 convolution
      are added;
  (3) nonlinearity, dropout, and a second causal convolution to width 2F;
  (4) if a conditioning tensor \<open>h\<close> is present, its 1 by 1 projection to width 2F is
      added;
  (5) the gate;
  (6) the residual connection.
  The block's four convolutions have the kernels \<open>w 0\<close> to \<open>w 3\<close> and the biases
  \<open>bs 0\<close> to \<open>bs 3\<close>.
\<close>

definition gated_resnet ::
  "('a \<Rightarrow> 'a) \<Rightarrow> ('a \<Rightarrow> 'a) \<Rightarrow> (nat \<Rightarrow> nat \<Rightarrow> nat \<Rightarrow> nat \<Rightarrow> nat \<Rightarrow> 'a) \<Rightarrow> (nat \<Rightarrow> nat \<Rightarrow> 'a) \<Rightarrow>
   (nat \<Rightarrow> nat \<Rightarrow> nat \<Rightarrow> nat \<Rightarrow> 'a) \<Rightarrow>
   'a::comm_ring_1 tensor \<Rightarrow> 'a tensor option \<Rightarrow> 'a tensor option \<Rightarrow> causal \<Rightarrow> nat \<times> nat \<Rightarrow>
   'a tensor option" where
  "gated_resnet f g w bs keep x a h conv kernel_size =
     (let c1 = causal_conv2d conv (w 0) (bs 0) (nc x) kernel_size (concat_elu f x)
      in case (case a of None \<Rightarrow> Some c1
               | Some a' \<Rightarrow> add c1 (conv2d (w 1) (bs 1) (nc x) (1, 1) (concat_elu f a'))) of
           None \<Rightarrow> None
         | Some c1 \<Rightarrow>
            (let c2 = causal_conv2d conv (w 2) (bs 2) (2 * nc x) kernel_size
                        (dropout keep (concat_elu f c1))
             in case (case h of None \<Rightarrow> Some c2
                      | Some h' \<Rightarrow> add c2 (conv2d (w 3) (bs 3) (2 * nc x) (1, 1) h')) of
                  None \<Rightarrow> None
                | Some c2 \<Rightarrow> add x (gate g c2)))"

section \<open>Network assembly (pixelcnn/pixelcnn.py)\<close>

text \<open>
  The two factories build a graph of layers; running the model evaluates it. A node of
  the graph is a placeholder or the application of a layer to earlier nodes. The
  placeholders carry the name of the variable that holds them.
\<close>

datatype node =
    Input string "nat list"
  | Embedding nat nat node
  | Lambda_padding_backend node
  | Down_shift node
  | Right_shift node
  | Down_shifted_conv2d node nat "nat \<times> nat"
  | Down_right_shifted_conv2d node nat "nat \<times> nat"
  | Add node node
  | Gated_resnet node "node option" "node option" causal "nat \<times> nat" real
  | Concat_elu node
  | Conv2D nat "nat \<times> nat" node
  | Conv2DTranspose nat "nat \<times> nat" "nat \<times> nat" node

record model =
  model_inputs :: "node list"
  model_outputs :: node

definition image_input :: "bool \<Rightarrow> nat \<Rightarrow> nat \<Rightarrow> nat \<Rightarrow> node" where
  "image_input image_is_discrete image_height image_width filters =
     (if image_is_discrete then Input ''images'' [image_height, image_width]
      else Input ''images'' [image_height, image_width, filters])"

definition image_embedding :: "bool \<Rightarrow> nat \<Rightarrow> nat \<Rightarrow> node \<Rightarrow> node" where
  "image_embedding image_is_discrete output_size filters images =
     (let images_embedding =
            (if image_is_discrete then Embedding output_size filters images else images)
      in Lambda_padding_backend images_embedding)"

definition initial_streams :: "nat \<Rightarrow> node \<Rightarrow> node \<times> node" where
  "initial_streams filters images_embedding =
     (let top = Down_shift (Down_shifted_conv2d images_embedding filters (2, 3));
          initial_top_left_stream_a =
            Down_shift (Down_shifted_conv2d images_embedding filters (1, 3));
          initial_top_left_stream_b =
            Right_shift (Down_right_shifted_conv2d images_embedding filters (2, 1));
          top_left = Add initial_top_left_stream_a initial_top_left_stream_b
      in (top, top_left))"

text \<open>
  The body of the main loop; \<open>h\<close> is the conditioning of the conditional network and
  absent in the other.
\<close>

definition gated_layer :: "node option \<Rightarrow> real \<Rightarrow> nat \<Rightarrow> node \<times> node \<Rightarrow> node \<times> node" where
  "gated_layer h dropout_rate layer s =
     (let top = Gated_resnet (fst s) None h By_down_shifted_conv2d (2, 3) dropout_rate;
          top_left = Gated_resnet (snd s) (Some top) h By_down_right_shifted_conv2d (2, 2)
                       dropout_rate
      in (top, top_left))"

definition streams :: "node option \<Rightarrow> real \<Rightarrow> nat \<Rightarrow> node \<times> node \<Rightarrow> node \<times> node" where
  "streams h dropout_rate num_layers s = fold (gated_layer h dropout_rate) [0..<num_layers] s"

definition logits_of :: "nat \<Rightarrow> node \<Rightarrow> node" where
  "logits_of output_size top_left = Conv2D output_size (1, 1) (Concat_elu top_left)"

definition PixelCNN :: "nat \<Rightarrow> nat \<Rightarrow> nat \<Rightarrow> bool \<Rightarrow> nat \<Rightarrow> nat \<Rightarrow> real \<Rightarrow> model" where
  "PixelCNN output_size image_height image_width image_is_discrete num_layers filters
     dropout_rate =
     (let images = image_input image_is_discrete image_height image_width filters;
          images_embedding = image_embedding image_is_discrete output_size filters images;
          s = streams None dropout_rate num_layers (initial_streams filters images_embedding);
          logits = logits_of output_size (snd s)
      in \<lparr>model_inputs = [images], model_outputs = logits\<rparr>)"

definition conditional_input :: "bool \<Rightarrow> nat \<Rightarrow> nat \<Rightarrow> nat \<Rightarrow> node" where
  "conditional_input class_conditional conditional_height conditional_width
     conditional_vector_size =
     (if class_conditional then Input ''inputs'' [conditional_height, conditional_width]
      else Input ''inputs'' [conditional_height, conditional_width, conditional_vector_size])"

definition upsample :: "nat \<Rightarrow> nat \<Rightarrow> node \<Rightarrow> node" where
  "upsample filters i conditional_embedding =
     (let conditional_embedding =
            (if 0 < i then Concat_elu conditional_embedding else conditional_embedding)
      in Conv2DTranspose filters (5, 5) (2, 2) conditional_embedding)"

definition conditional_embedding_of ::
  "bool \<Rightarrow> nat \<Rightarrow> nat \<Rightarrow> nat \<Rightarrow> nat \<Rightarrow> node \<Rightarrow> node" where
  "conditional_embedding_of class_conditional num_classes conditional_vector_size
     num_preprocess_layers filters inputs =
     (let conditional_embedding =
            (if class_conditional then Embedding num_classes conditional_vector_size inputs
             else inputs)
      in fold (upsample filters) [0..<num_preprocess_layers] conditional_embedding)"

definition ConditionalPixelCNN ::
  "nat \<Rightarrow> nat \<Rightarrow> nat \<Rightarrow> nat \<Rightarrow> bool \<Rightarrow> nat \<Rightarrow> nat \<Rightarrow> bool \<Rightarrow> nat \<Rightarrow> nat \<Rightarrow> nat \<Rightarrow> nat \<Rightarrow> real \<Rightarrow>
   model" where
  "ConditionalPixelCNN output_size conditional_vector_size image_height image_width
     image_is_discrete conditional_height conditional_width class_conditional num_classes
     num_preprocess_layers num_layers filters dropout_rate =
     (let images = image_input image_is_discrete image_height image_width filters;
          inputs = conditional_input class_conditional conditional_height conditional_width
                     conditional_vector_size;
          conditional_embedding =
            conditional_embedding_of class_conditional num_classes conditional_vector_size
              num_preprocess_layers filters inputs;
          images_embedding = image_embedding image_is_discrete output_size filters images;
          s = streams (Some conditional_embedding) dropout_rate num_layers
                (initial_streams filters images_embedding);
          logits = logits_of output_size (snd s)
      in \<lparr>model_inputs = [images, inputs], model_outputs = logits\<rparr>)"

section \<open>Running a model\<close>

text \<open>
  What a run of a model is given: the two scalar functions of the nonlinearities, the
  parameters every layer owns (kernels and biases by layer and by convolution within
  the layer, embedding tables, dropout masks), and the tensors fed to the placeholders:
  codes where the placeholder is discrete, features otherwise.
\<close>

record 'a run =
  elu :: "'a \<Rightarrow> 'a"
  sigmoid :: "'a \<Rightarrow> 'a"
  kernel :: "node \<Rightarrow> nat \<Rightarrow> nat \<Rightarrow> nat \<Rightarrow> nat \<Rightarrow> nat \<Rightarrow> 'a"
  bias :: "node \<Rightarrow> nat \<Rightarrow> nat \<Rightarrow> 'a"
  table :: "node \<Rightarrow> nat \<Rightarrow> nat \<Rightarrow> 'a"
  mask :: "node \<Rightarrow> nat \<Rightarrow> nat \<Rightarrow> nat \<Rightarrow> nat \<Rightarrow> 'a"
  fed_codes :: "string \<Rightarrow> codes"
  fed :: "string \<Rightarrow> 'a tensor"

text \<open>\<^verbatim>\<open>padding_backend\<close>: one more channel on the right, holding the constant 1.\<close>

definition padding_backend :: "'a::comm_ring_1 tensor \<Rightarrow> 'a tensor" where
  "padding_backend z = tf_pad z (0, 0) (0, 0) (0, 0) (0, 1) 1"

text \<open>
  An optional argument of a block: absent, or present; a present argument whose own
  evaluation failed makes the block fail.
\<close>

fun optional :: "'b option option \<Rightarrow> 'b option option" where
  "optional None = Some None"
| "optional (Some None) = None"
| "optional (Some (Some v)) = Some (Some v)"

text \<open>
  The value of a node in a run, or \<open>None\<close> where the framework raises: a fed tensor
  that has not the declared shape, an index outside an embedding table, a sum of two
  shapes that cannot be broadcast. Both factories apply an embedding to a placeholder
  only, which is fed codes; the placeholder is declared without a dtype, so the codes
  reach the embedding as float32.
\<close>

fun forward :: "'a::comm_ring_1 run \<Rightarrow> node \<Rightarrow> 'a tensor option" where
  "forward E (Input name shape) =
     (let t = fed E name in if [nh t, nw t, nc t] = shape then Some t else None)"
| "forward E (Embedding input_dim output_dim x) =
     (case x of
        Input name shape \<Rightarrow>
          (let z = fed_codes E name
           in if [ch z, cw z] = shape
              then embedding (table E (Embedding input_dim output_dim x)) input_dim output_dim
                     (feed_float32 z)
              else None)
      | _ \<Rightarrow> None)"
| "forward E (Lambda_padding_backend x) = map_option padding_backend (forward E x)"
| "forward E (Down_shift x) = map_option down_shift (forward E x)"
| "forward E (Right_shift x) = map_option right_shift (forward E x)"
| "forward E (Down_shifted_conv2d x n ks) =
     map_option
       (down_shifted_conv2d (kernel E (Down_shifted_conv2d x n ks) 0)
          (bias E (Down_shifted_conv2d x n ks) 0) n ks)
       (forward E x)"
| "forward E (Down_right_shifted_conv2d x n ks) =
     map_option
       (down_right_shifted_conv2d (kernel E (Down_right_shifted_conv2d x n ks) 0)
          (bias E (Down_right_shifted_conv2d x n ks) 0) n ks)
       (forward E x)"
| "forward E (Add x y) =
     (case forward E x of None \<Rightarrow> None
      | Some u \<Rightarrow> (case forward E y of None \<Rightarrow> None | Some v \<Rightarrow> add u v))"
| "forward E (Gated_resnet x a h conv ks rate) =
     (case forward E x of None \<Rightarrow> None
      | Some u \<Rightarrow>
         (case optional (map_option (forward E) a) of None \<Rightarrow> None
          | Some a' \<Rightarrow>
             (case optional (map_option (forward E) h) of None \<Rightarrow> None
              | Some h' \<Rightarrow>
                 gated_resnet (elu E) (sigmoid E)
                   (kernel E (Gated_resnet x a h conv ks rate))
                   (bias E (Gated_resnet x a h conv ks rate))
                   (mask E (Gated_resnet x a h conv ks rate)) u a' h' conv ks)))"
| "forward E (Concat_elu x) = map_option (concat_elu (elu E)) (forward E x)"
| "forward E (Conv2D n ks x) =
     map_option (conv2d (kernel E (Conv2D n ks x) 0) (bias E (Conv2D n ks x) 0) n ks)
       (forward E x)"
| "forward E (Conv2DTranspose n ks st x) =
     map_option
       (conv2d_transpose (kernel E (Conv2DTranspose n ks st x) 0)
          (bias E (Conv2DTranspose n ks st x) 0) n ks st)
       (forward E x)"

section \<open>Shapes and valid inputs\<close>

definition shape :: "'a tensor \<Rightarrow> nat \<times> nat \<times> nat \<times> nat" where
  "shape t = (nb t, nh t, nw t, nc t)"

text \<open>A run that does not fail and gives a tensor of the shape \<open>s\<close>.\<close>

definition yields :: "'a tensor option \<Rightarrow> nat \<times> nat \<times> nat \<times> nat \<Rightarrow> bool" where
  "yields res s = (case res of None \<Rightarrow> False | Some t \<Rightarrow> shape t = s)"

text \<open>
  The index that the lookup of an embedding reads for a code fed to the placeholder.
\<close>

definition embedding_index :: "int \<Rightarrow> int" where
  "embedding_index i = cast_int32 (cast_float32 i)"

text \<open>
  Codes that are all valid indices of a table of \<open>input_dim\<close> rows: the index read
  for each lies in \<open>[0, input_dim)\<close>. For a table of at most 2^24 rows these are the
  codes that themselves lie in \<open>[0, input_dim)\<close>.
\<close>

definition valid_codes :: "nat \<Rightarrow> codes \<Rightarrow> bool" where
  "valid_codes input_dim z =
     list_all (\<lambda>b. list_all (\<lambda>r. list_all (\<lambda>c.
         0 \<le> embedding_index (code z b r c) \<and> embedding_index (code z b r c) < int input_dim)
       [0..<cw z]) [0..<ch z]) [0..<cb z]"

text \<open>The kernels for which a causal convolution keeps the spatial extents.\<close>

fun keeps_extents :: "causal \<Rightarrow> nat \<times> nat \<Rightarrow> bool" where
  "keeps_extents By_down_shifted_conv2d ks = (1 \<le> fst ks \<and> odd (snd ks))"
| "keeps_extents By_down_right_shifted_conv2d ks = (1 \<le> fst ks \<and> 1 \<le> snd ks)"

text \<open>The image fed to a network is valid for its declared image input.\<close>

definition valid_image :: "'a run \<Rightarrow> bool \<Rightarrow> nat \<Rightarrow> nat \<Rightarrow> nat \<Rightarrow> nat \<Rightarrow> nat \<Rightarrow> bool" where
  "valid_image E image_is_discrete output_size image_height image_width filters batch =
     (if image_is_discrete
      then cb (fed_codes E ''images'') = batch \<and> ch (fed_codes E ''images'') = image_height
           \<and> cw (fed_codes E ''images'') = image_width
           \<and> valid_codes output_size (fed_codes E ''images'')
      else shape (fed E ''images'') = (batch, image_height, image_width, filters))"

text \<open>An optional argument of a block runs, and has the batch and spatial extents.\<close>

definition fits :: "'a::comm_ring_1 run \<Rightarrow> node option \<Rightarrow> nat \<times> nat \<times> nat \<Rightarrow> bool" where
  "fits E a s =
     (case a of None \<Rightarrow> True
      | Some n \<Rightarrow> (case forward E n of None \<Rightarrow> False
                    | Some t \<Rightarrow> (nb t, nh t, nw t) = s))"

text \<open>The conditioning fed to a conditional network is valid for its declared input.\<close>

definition valid_conditioning ::
  "'a run \<Rightarrow> bool \<Rightarrow> nat \<Rightarrow> nat \<Rightarrow> nat \<Rightarrow> nat \<Rightarrow> nat \<Rightarrow> bool" where
  "valid_conditioning E class_conditional num_classes conditional_height conditional_width
     conditional_vector_size batch =
     (if class_conditional
      then cb (fed_codes E ''inputs'') = batch
           \<and> ch (fed_codes E ''inputs'') = conditional_height
           \<and> cw (fed_codes E ''inputs'') = conditional_width
           \<and> valid_codes num_classes (fed_codes E ''inputs'')
      else shape (fed E ''inputs'') =
             (batch, conditional_height, conditional_width, conditional_vector_size))"

section \<open>The wiring of a graph\<close>

text \<open>All nodes of the graph that ends in a node, the node itself included.\<close>

fun subnodes :: "node \<Rightarrow> node set" where
  "subnodes (Input name shp) = {Input name shp}"
| "subnodes (Embedding i k x) = insert (Embedding i k x) (subnodes x)"
| "subnodes (Lambda_padding_backend x) = insert (Lambda_padding_backend x) (subnodes x)"
| "subnodes (Down_shift x) = insert (Down_shift x) (subnodes x)"
| "subnodes (Right_shift x) = insert (Right_shift x) (subnodes x)"
| "subnodes (Down_shifted_conv2d x n ks) = insert (Down_shifted_conv2d x n ks) (subnodes x)"
| "subnodes (Down_right_shifted_conv2d x n ks) =
     insert (Down_right_shifted_conv2d x n ks) (subnodes x)"
| "subnodes (Add x y) = insert (Add x y) (subnodes x \<union> subnodes y)"
| "subnodes (Gated_resnet x a h conv ks rate) =
     insert (Gated_resnet x a h conv ks rate)
       (subnodes x \<union> (case a of None \<Rightarrow> {} | Some a' \<Rightarrow> subnodes a')
          \<union> (case h of None \<Rightarrow> {} | Some h' \<Rightarrow> subnodes h'))"
| "subnodes (Concat_elu x) = insert (Concat_elu x) (subnodes x)"
| "subnodes (Conv2D n ks x) = insert (Conv2D n ks x) (subnodes x)"
| "subnodes (Conv2DTranspose n ks st x) = insert (Conv2DTranspose n ks st x) (subnodes x)"

text \<open>The nodes that merge two streams: a sum, or a gated block with a second stream.\<close>

fun merges :: "node \<Rightarrow> bool" where
  "merges (Add x y) = True"
| "merges (Gated_resnet x (Some a) h conv ks rate) = True"
| "merges x = False"

text \<open>The gated blocks, and the conditioning a gated block is given.\<close>

fun is_block :: "node \<Rightarrow> bool" where
  "is_block (Gated_resnet x a h conv ks rate) = True"
| "is_block x = False"


text \<open>A graph without sums and gated blocks: the embeddings are such.\<close>

definition plain :: "node \<Rightarrow> bool" where
  "plain x = (\<forall>y\<in>subnodes x. \<not> merges y \<and> \<not> is_block y)"

definition plain_opt :: "node option \<Rightarrow> bool" where
  "plain_opt h = (case h of None \<Rightarrow> True | Some h' \<Rightarrow> plain h')"


section \<open>Two runs\<close>

text \<open>
  Two tensors of one shape that hold the same values at all positions (row, column) of
  a set, in every batch element and channel.
\<close>

definition agree :: "(nat \<Rightarrow> nat \<Rightarrow> bool) \<Rightarrow> 'a tensor \<Rightarrow> 'a tensor \<Rightarrow> bool" where
  "agree P x y \<longleftrightarrow>
     shape x = shape y \<and>
     (\<forall>b<nb x. \<forall>r<nh x. \<forall>c<nw x. \<forall>k<nc x. P r c \<longrightarrow> elem x b r c k = elem y b r c k)"











section \<open>Concrete inputs\<close>

text \<open>A batch of one image of one white pixel, with the label 3.\<close>

definition ex0 :: example where
  "ex0 = \<lparr>image = \<lparr>nb = 1, nh = 1, nw = 1, nc = 3, elem = (\<lambda>b r c k. 255)\<rparr>,
          label = (\<lambda>b. 3)\<rparr>"

text \<open>
  A run on integers: one image of 2 by 2 pixels with the codes 0 to 3, the class 1 as
  conditioning, and continuous inputs of depth 2.
\<close>

definition E0 :: "int run" where
  "E0 = \<lparr>elu = (\<lambda>v. if v < 0 then - 1 else v),
         sigmoid = (\<lambda>v. if v < 0 then 0 else 1),
         kernel = (\<lambda>l q i j k m. 1 + int i + 2 * int j + int k * int m),
         bias = (\<lambda>l q m. int m),
         table = (\<lambda>l i k. int i + int k),
         mask = (\<lambda>l b r c k. 1),
         fed_codes = (\<lambda>name. if name = ''images''
            then \<lparr>cb = 1, ch = 2, cw = 2, code = (\<lambda>b r c. int r * 2 + int c)\<rparr>
            else \<lparr>cb = 1, ch = 1, cw = 1, code = (\<lambda>b r c. 1)\<rparr>),
         fed = (\<lambda>name. \<lparr>nb = 1, nh = 2, nw = 2, nc = 2, elem = (\<lambda>b r c k. int (r + c + k))\<rparr>)\<rparr>"

text \<open>
  A run of a network for images of 32 by 32 pixels, all zero, with the class 1 as
  conditioning.
\<close>

definition E1 :: "int run" where
  "E1 = E0\<lparr>fed_codes := (\<lambda>name. if name = ''images''
            then \<lparr>cb = 1, ch = 32, cw = 32, code = (\<lambda>b r c. 0)\<rparr>
            else \<lparr>cb = 1, ch = 1, cw = 1, code = (\<lambda>b r c. 1)\<rparr>)\<rparr>"


text \<open>The run \<open>E0\<close> with an image of one pixel, of code 0.\<close>

definition E2 :: "int run" where
  "E2 = E0\<lparr>fed_codes := (\<lambda>name. if name = ''images''
      then \<lparr>cb = 1, ch = 1, cw = 1, code = (\<lambda>b r c. 0)\<rparr>
      else fed_codes E0 name)\<rparr>"

text \<open>The run \<open>E0\<close> with an image of one pixel, of code 2^24 + 1.\<close>

definition E3 :: "int run" where
  "E3 = E0\<lparr>fed_codes := (\<lambda>name. if name = ''images''
      then \<lparr>cb = 1, ch = 1, cw = 1, code = (\<lambda>b r c. 16777217)\<rparr>
      else fed_codes E0 name)\<rparr>"

section \<open>The training driver: proofs\<close>

subsection \<open>The targets\<close>

lemma bitlen_le: "n < 2 ^ k \<Longrightarrow> bitlen n \<le> k"
proof (induction k arbitrary: n)
  case 0
  then show ?case by (simp add: bitlen.simps)
next
  case (Suc k)
  then have "n div 2 < 2 ^ k" by simp
  then have "bitlen (n div 2) \<le> k" by (rule Suc.IH)
  then show ?case by (subst bitlen.simps) simp
qed

lemma bitlen_25_6: "bitlen 13421773 = 24"
  by (simp add: bitlen.simps)

lemma round_half_even_le: "round_half_even n d \<le> n div d + 1"
  by (simp add: round_half_even_def round_pick_def)

lemma quot_exponent_le: "quot_exponent n d \<le> int (bitlen n) - int (bitlen d)"
  by (simp add: quot_exponent_def pick_exponent_def)

lemma digit_quot_le:
  assumes v: "v < 256"
  shows "scale2 (fst (f32_quot (v * 2 ^ 19) 13421773)) (snd (f32_quot (v * 2 ^ 19) 13421773)) \<le> 9"
proof (cases "v = 0")
  case True
  then show ?thesis by (simp add: f32_quot_def scale2_def)
next
  case False
  define n where "n = v * 2 ^ 19"
  define e where "e = quot_exponent n 13421773"
  define s where "s = nat (23 - e)"
  define X :: nat where "X = 2 ^ s"
  have n_le: "n \<le> 133693440" using v by (simp add: n_def)
  then have "n < 2 ^ 27" by simp
  then have "bitlen n \<le> 27" by (rule bitlen_le)
  with quot_exponent_le [of n 13421773] have e_le: "e \<le> 3"
    by (simp add: e_def bitlen_25_6)
  then have s_ge: "20 \<le> s" by (simp add: s_def)
  have "(2::nat) ^ 20 \<le> 2 ^ s" using s_ge by (rule power_increasing) simp
  then have X_ge: "1048576 \<le> X" by (simp add: X_def)
  have n0: "n \<noteq> 0" using False by (simp add: n_def)
  have quot: "f32_quot n 13421773 = (round_half_even (n * X) 13421773, e - 23)"
    using e_le n0 by (simp add: f32_quot_def f32_round_def shl_def e_def s_def X_def)
  have sc: "scale2 m (e - 23) = m div X" for m
    using e_le by (simp add: scale2_def s_def X_def)
  have nX: "n * X \<le> 133693440 * X" using n_le by (rule mult_le_mono1)
  have "133693440 * X + 13421773 < 134217730 * X" using X_ge by simp
  with nX have "n * X + 13421773 < 134217730 * X" by linarith
  moreover have "(10 * X - 1) * 13421773 = 134217730 * X - 13421773"
    by (simp add: diff_mult_distrib)
  ultimately have "n * X < (10 * X - 1) * 13421773" by linarith
  then have "n * X div 13421773 < 10 * X - 1"
    by (simp add: less_mult_imp_div_less)
  with round_half_even_le [of "n * X" 13421773]
  have "round_half_even (n * X) 13421773 < 10 * X" by simp
  then have "round_half_even (n * X) 13421773 div X < 10"
    using X_ge by (simp add: less_mult_imp_div_less mult.commute)
  then have "scale2 (fst (f32_quot n 13421773)) (snd (f32_quot n 13421773)) \<le> 9"
    by (simp add: quot sc)
  then show ?thesis unfolding n_def .
qed

lemma channel_digit_range: "0 \<le> channel_digit p \<and> channel_digit p \<le> 9"
proof -
  have "unat p < 256" using unsigned_less [of p] by simp
  then show ?thesis
    using digit_quot_le [of "unat p"]
    by (simp add: channel_digit_def f32_to_int32_def f32_div_def f32_25_6_def shl_def)
qed

lemma pack_digits_range: "0 \<le> pack_digits r g b \<and> pack_digits r g b \<le> 999"
  using channel_digit_range [of r] channel_digit_range [of g] channel_digit_range [of b]
  by (simp add: pack_digits_def)


lemma channel_digit_128: "channel_digit 128 = 5"
  by (simp add: channel_digit_def f32_to_int32_def f32_div_def f32_25_6_def shl_def
        f32_quot_def f32_round_def quot_exponent_def pick_exponent_def round_half_even_def
        round_pick_def scale2_def bitlen.simps)

text \<open>
  C3. For every batch of three-channel images (the pixels are unsigned bytes, so every
  intensity lies in [0, 255]), the target of every pixel, the three channel digits
  packed as R + 10 G + 100 B, lies in [0, 999], and so is a class index below the
  output size 1000 of the network the script builds.
\<close>

theorem targets_in_range:
  "0 \<le> code (targets img) b r c \<and> code (targets img) b r c \<le> 999
   \<and> code (targets img) b r c < int 1000"
  using pack_digits_range [of "elem img b r c 0" "elem img b r c 1" "elem img b r c 2"]
  by (simp add: targets_def)

theorem targets_in_range_witness:
  "0 \<le> code (targets (image ex0)) 0 0 0 \<and> code (targets (image ex0)) 0 0 0 \<le> 999"
  using targets_in_range [of "image ex0" 0 0 0] by simp

subsection \<open>The loop\<close>

lemma train_iteration_saved:
  "saved (train_iteration (i, ex) st) =
     saved st @ (if i mod 100 = 0 then [(i, ''models/model.h5'')] else [])"
  by (simp add: train_iteration_def minimize_def model_save_def Let_def)

lemma train_iteration_files:
  "files (train_iteration (i, ex) st) =
     (if i mod 100 = 0
      then (files st)(''models/model.h5'' \<mapsto> (last (networks st), Suc (length (trained_on st))))
      else files st)"
  by (simp add: train_iteration_def minimize_def model_save_def Let_def)

lemma train_iteration_networks: "networks (train_iteration ie st) = networks st"
  by (simp add: train_iteration_def minimize_def model_save_def Let_def)

lemma train_iteration_trained_on:
  "trained_on (train_iteration ie st) =
     trained_on st @ [(targets (image (snd ie)), labels_of (snd ie))]"
  by (simp add: train_iteration_def minimize_def model_save_def Let_def)

lemma main_snoc: "main (ds @ [ex]) = train_iteration (length ds, ex) (main ds)"
  by (simp add: main_def enumerate_append_eq)

lemma main_networks: "networks (main ds) = [driver_model]"
  by (induction ds rule: rev_induct)
     (simp_all add: main_snoc train_iteration_networks, simp add: main_def start_def)

lemma main_trained_on:
  "trained_on (main ds) = map (\<lambda>ex. (targets (image ex), labels_of ex)) ds"
  by (induction ds rule: rev_induct)
     (simp_all add: main_snoc train_iteration_trained_on, simp add: main_def start_def)

lemma main_saved:
  "saved (main ds) =
     map (\<lambda>i. (i, ''models/model.h5'')) (filter (\<lambda>i. i mod 100 = 0) [0..<length ds])"
  by (induction ds rule: rev_induct)
     (simp_all add: main_snoc train_iteration_saved, simp add: main_def start_def)



lemma upd_single:
  "(if c then Map.empty else [p \<mapsto> u])(p \<mapsto> v) = [p \<mapsto> v]"
  by (cases c) (simp_all only: fun_upd_upd if_True if_False)

lemma main_files:
  "files (main ds) =
     (if ds = [] then Map.empty
      else [''models/model.h5'' \<mapsto> (driver_model, Suc (100 * ((length ds - 1) div 100)))])"
proof (induction ds rule: rev_induct)
  case Nil
  show ?case by (simp add: main_def start_def)
next
  case (snoc ex ds)
  have step: "files (main (ds @ [ex])) =
      (if length ds mod 100 = 0
       then (files (main ds))(''models/model.h5'' \<mapsto> (driver_model, Suc (length ds)))
       else files (main ds))"
    by (simp only: main_snoc train_iteration_files main_networks main_trained_on
          last.simps length_map simp_thms if_True)
  show ?case
  proof (cases "length ds mod 100 = 0")
    case True
    then have len: "100 * ((length (ds @ [ex]) - 1) div 100) = length ds"
      using div_mult_mod_eq [of "length ds" 100] by simp
    have "files (main (ds @ [ex])) =
            (files (main ds))(''models/model.h5'' \<mapsto> (driver_model, Suc (length ds)))"
      using True by (simp only: step if_True simp_thms)
    also have "\<dots> = [''models/model.h5'' \<mapsto> (driver_model, Suc (length ds))]"
      by (simp only: snoc.IH upd_single)
    finally show ?thesis by (simp only: len) simp
  next
    case False
    then have ne: "ds \<noteq> []" by auto
    define q where "q = length ds div 100"
    define m where "m = length ds mod 100"
    have n: "length ds = 100 * q + m" by (simp add: q_def m_def)
    have m: "0 < m" "m < 100" using False by (simp_all add: m_def)
    have "(length ds - 1) div 100 = q"
    proof (rule div_nat_eqI)
      show "100 * q \<le> length ds - 1" using n m by linarith
      show "length ds - 1 < 100 * Suc q" using n m by simp
    qed
    then have "(length ds - 1) div 100 = length ds div 100" by (simp add: q_def)
    then have len: "(length (ds @ [ex]) - 1) div 100 = (length ds - 1) div 100"
      by simp
    have "files (main (ds @ [ex])) = files (main ds)"
      using False by (simp only: step if_False simp_thms)
    then show ?thesis using ne by (simp only: snoc.IH len) simp
  qed
qed


text \<open>
  C2. The script builds exactly one network, by the one call of the factory
  ConditionalPixelCNNPlusPlus (output size 1000, the spatial extents, the layer and
  filter counts and the dropout rate among its arguments), and then applies one
  optimizer step per batch: after any list of batches, the steps applied are, in order,
  the steps on the targets and labels of the batches.
\<close>

theorem one_network_one_step_per_batch:
  "networks (main train_ds) = [driver_model]
   \<and> func driver_model = ''ConditionalPixelCNNPlusPlus''
   \<and> args driver_model = [Num 1000, Num 32]
   \<and> trained_on (main train_ds) = map (\<lambda>ex. (targets (image ex), labels_of ex)) train_ds
   \<and> length (trained_on (main train_ds)) = length train_ds"
  by (simp add: main_networks main_trained_on driver_model_def)

theorem one_network_one_step_per_batch_witness:
  "networks (main [ex0, ex0, ex0]) = [driver_model]
   \<and> length (trained_on (main [ex0, ex0, ex0])) = 3"
  using one_network_one_step_per_batch [of "[ex0, ex0, ex0]"] by simp

text \<open>
  C8. The script writes the model to the fixed path models/model.h5 exactly in the
  iterations i with i mod 100 = 0, iteration 0 included, and in no other iteration. Every
  write replaces the one file: after the run no other file exists, and the file holds
  the architecture and the weights as of the last such iteration.
\<close>

theorem checkpoint_schedule:
  "((i, path) \<in> set (saved (main train_ds)) \<longleftrightarrow>
      i < length train_ds \<and> i mod 100 = 0 \<and> path = ''models/model.h5'')
   \<and> saved (main train_ds) =
       map (\<lambda>i. (i, ''models/model.h5'')) (filter (\<lambda>i. i mod 100 = 0) [0..<length train_ds])
   \<and> files (main train_ds) =
       (if train_ds = [] then Map.empty
        else [''models/model.h5'' \<mapsto>
                (driver_model, Suc (100 * ((length train_ds - 1) div 100)))])"
  by (auto simp: main_saved main_files)

theorem checkpoint_schedule_witness:
  "(0, ''models/model.h5'') \<in> set (saved (main [ex0, ex0]))
   \<and> (1, ''models/model.h5'') \<notin> set (saved (main [ex0, ex0]))
   \<and> files (main [ex0, ex0]) = [''models/model.h5'' \<mapsto> (driver_model, 1)]"
  using checkpoint_schedule [of 0 "''models/model.h5''" "[ex0, ex0]"]
    checkpoint_schedule [of 1 "''models/model.h5''" "[ex0, ex0]"]
  by simp

section \<open>The network: proofs\<close>

subsection \<open>The shapes of the layers\<close>

lemma shape_padding_backend [simp]:
  "shape (padding_backend z) = (nb z, nh z, nw z, Suc (nc z))"
  by (simp add: shape_def padding_backend_def tf_pad_def)

lemma shape_down_shift [simp]: "shape (down_shift x) = shape x"
  by (simp add: shape_def down_shift_def tf_pad_def Let_def)

lemma shape_right_shift [simp]: "shape (right_shift x) = shape x"
  by (simp add: shape_def right_shift_def tf_pad_def Let_def)

lemma shape_concat_elu [simp]: "shape (concat_elu f x) = (nb x, nh x, nw x, 2 * nc x)"
  by (simp add: shape_def concat_elu_def)

lemma shape_conv2d [simp]:
  "shape (conv2d w bs n ks x) = (nb x, nh x + 1 - fst ks, nw x + 1 - snd ks, n)"
  by (simp add: shape_def conv2d_def)

lemma shape_conv2d_transpose [simp]:
  "shape (conv2d_transpose w bs n ks st x) = (nb x, nh x * fst st, nw x * snd st, n)"
  by (simp add: shape_def conv2d_transpose_def)

lemma shape_down_shifted_conv2d:
  "1 \<le> fst ks \<Longrightarrow> odd (snd ks) \<Longrightarrow>
   shape (down_shifted_conv2d w bs n ks x) = (nb x, nh x, nw x, n)"
  by (auto simp: shape_def down_shifted_conv2d_def conv2d_def tf_pad_def elim!: oddE)

lemma shape_down_right_shifted_conv2d:
  "1 \<le> fst ks \<Longrightarrow> 1 \<le> snd ks \<Longrightarrow>
   shape (down_right_shifted_conv2d w bs n ks x) = (nb x, nh x, nw x, n)"
  by (simp add: shape_def down_right_shifted_conv2d_def conv2d_def tf_pad_def)

lemma shape_dropout [simp]: "shape (dropout keep x) = shape x"
  by (simp add: shape_def dropout_def)

lemma shape_gate [simp]: "shape (gate g x) = (nb x, nh x, nw x, nc x div 2)"
  by (simp add: shape_def gate_def)

lemma add_shape: "shape x = shape y \<Longrightarrow> yields (add x y) (shape x)"
  by (simp add: add_def broadcastable_def broadcast_def yields_def shape_def)

lemma add_None_extents:
  "\<not> (broadcastable (nh x) (nh y) \<and> broadcastable (nw x) (nw y)) \<Longrightarrow> add x y = None"
  by (auto simp: add_def)

lemma shape_causal_conv2d:
  "keeps_extents conv ks \<Longrightarrow> shape (causal_conv2d conv w bs n ks x) = (nb x, nh x, nw x, n)"
  by (cases conv) (simp_all add: shape_down_shifted_conv2d shape_down_right_shifted_conv2d)

lemma yieldsE: "yields res s \<Longrightarrow> (\<And>t. res = Some t \<Longrightarrow> shape t = s \<Longrightarrow> P) \<Longrightarrow> P"
  by (cases res) (simp_all add: yields_def)

lemma yields_Some [simp]: "yields (Some t) s \<longleftrightarrow> shape t = s"
  by (simp add: yields_def)

lemma yields_None [simp]: "\<not> yields None s"
  by (simp add: yields_def)

lemma concat_elu_extents [simp]:
  "nb (concat_elu f x) = nb x" "nh (concat_elu f x) = nh x"
  "nw (concat_elu f x) = nw x" "nc (concat_elu f x) = 2 * nc x"
  by (simp_all add: concat_elu_def)

lemma dropout_extents [simp]:
  "nb (dropout keep x) = nb x" "nh (dropout keep x) = nh x"
  "nw (dropout keep x) = nw x" "nc (dropout keep x) = nc x"
  by (simp_all add: dropout_def)

lemma shape_components: "shape t = (b, r, c, k) \<longleftrightarrow> nb t = b \<and> nh t = r \<and> nw t = c \<and> nc t = k"
  by (auto simp: shape_def)

lemma gated_resnet_shape:
  assumes ks: "keeps_extents conv ks"
    and a: "\<And>a'. a = Some a' \<Longrightarrow> (nb a', nh a', nw a') = (nb x, nh x, nw x)"
    and h: "\<And>h'. h = Some h' \<Longrightarrow> (nb h', nh h', nw h') = (nb x, nh x, nw x)"
  shows "yields (gated_resnet f g w bs keep x a h conv ks) (nb x, nh x, nw x, nc x)"
proof -
  let ?c1 = "causal_conv2d conv (w 0) (bs 0) (nc x) ks (concat_elu f x)"
  have s1: "shape ?c1 = (nb x, nh x, nw x, nc x)"
    using ks by (simp add: shape_causal_conv2d)
  obtain c1 where c1: "(case a of None \<Rightarrow> Some ?c1
      | Some a' \<Rightarrow> add ?c1 (conv2d (w 1) (bs 1) (nc x) (1, 1) (concat_elu f a'))) = Some c1"
    and sc1: "shape c1 = (nb x, nh x, nw x, nc x)"
  proof (cases a)
    case None
    then show ?thesis using that s1 by simp
  next
    case (Some a')
    have "shape ?c1 = shape (conv2d (w 1) (bs 1) (nc x) (1, 1) (concat_elu f a'))"
      using a [OF Some] by (simp add: s1)
    from add_shape [OF this] show ?thesis
      using that Some by (auto simp: s1 elim!: yieldsE)
  qed
  from sc1 have e1: "nb c1 = nb x" "nh c1 = nh x" "nw c1 = nw x" "nc c1 = nc x"
    by (simp_all add: shape_components)
  let ?c2 = "causal_conv2d conv (w 2) (bs 2) (2 * nc x) ks (dropout keep (concat_elu f c1))"
  have s2: "shape ?c2 = (nb x, nh x, nw x, 2 * nc x)"
    using ks by (simp add: shape_causal_conv2d e1)
  obtain c2 where c2: "(case h of None \<Rightarrow> Some ?c2
      | Some h' \<Rightarrow> add ?c2 (conv2d (w 3) (bs 3) (2 * nc x) (1, 1) h')) = Some c2"
    and sc2: "shape c2 = (nb x, nh x, nw x, 2 * nc x)"
  proof (cases h)
    case None
    then show ?thesis using that s2 by simp
  next
    case (Some h')
    have "shape ?c2 = shape (conv2d (w 3) (bs 3) (2 * nc x) (1, 1) h')"
      using h [OF Some] by (simp add: s2)
    from add_shape [OF this] show ?thesis
      using that Some by (auto simp: s2 elim!: yieldsE)
  qed
  from sc2 have e2: "nb c2 = nb x" "nh c2 = nh x" "nw c2 = nw x" "nc c2 = 2 * nc x"
    by (simp_all add: shape_components)
  have "shape x = shape (gate g c2)" by (simp add: e2) (simp add: shape_def)
  from add_shape [OF this] show ?thesis
    using c1 c2 by (simp add: gated_resnet_def Let_def) (simp add: shape_def)
qed

lemma add_repeated:
  assumes "shape x = (b, r0, c0, k)" and "shape y = (b, r, c, k)"
    and "r0 = 1 \<or> r0 = r" and "c0 = 1 \<or> c0 = c"
  shows "yields (add x y) (b, r, c, k)"
  using assms by (auto simp: add_def broadcastable_def broadcast_def shape_def)

lemma gated_resnet_broadcast:
  assumes ks: "keeps_extents conv ks"
    and x: "nh x = 1 \<or> nh x = r" "nw x = 1 \<or> nw x = c"
    and a: "\<And>a'. a = Some a' \<Longrightarrow> (nb a', nh a', nw a') = (nb x, r, c)"
    and h: "(nb h', nh h', nw h') = (nb x, r, c)"
  shows "yields (gated_resnet f g w bs keep x a (Some h') conv ks) (nb x, r, c, nc x)"
proof -
  let ?c1 = "causal_conv2d conv (w 0) (bs 0) (nc x) ks (concat_elu f x)"
  have s1: "shape ?c1 = (nb x, nh x, nw x, nc x)"
    using ks by (simp add: shape_causal_conv2d)
  obtain c1 where c1: "(case a of None \<Rightarrow> Some ?c1
      | Some a' \<Rightarrow> add ?c1 (conv2d (w 1) (bs 1) (nc x) (1, 1) (concat_elu f a'))) = Some c1"
    and e1: "nb c1 = nb x" "nc c1 = nc x" "nh c1 = 1 \<or> nh c1 = r" "nw c1 = 1 \<or> nw c1 = c"
  proof (cases a)
    case None
    then show ?thesis using that [of ?c1] s1 x by (simp add: shape_components)
  next
    case (Some a')
    have "shape (conv2d (w 1) (bs 1) (nc x) (1, 1) (concat_elu f a')) = (nb x, r, c, nc x)"
      using a [OF Some] by simp
    from add_repeated [OF s1 this x] obtain t
      where "add ?c1 (conv2d (w 1) (bs 1) (nc x) (1, 1) (concat_elu f a')) = Some t"
        and "shape t = (nb x, r, c, nc x)"
      by (rule yieldsE)
    then show ?thesis using that [of t] Some by (simp add: shape_components)
  qed
  let ?c2 = "causal_conv2d conv (w 2) (bs 2) (2 * nc x) ks (dropout keep (concat_elu f c1))"
  have s2: "shape ?c2 = (nb x, nh c1, nw c1, 2 * nc x)"
    using ks by (simp add: shape_causal_conv2d e1)
  have "shape (conv2d (w 3) (bs 3) (2 * nc x) (1, 1) h') = (nb x, r, c, 2 * nc x)"
    using h by simp
  from add_repeated [OF s2 this e1(3,4)] obtain c2
    where c2: "add ?c2 (conv2d (w 3) (bs 3) (2 * nc x) (1, 1) h') = Some c2"
      and sc2: "shape c2 = (nb x, r, c, 2 * nc x)"
    by (rule yieldsE)
  from sc2 have e2: "nb c2 = nb x" "nh c2 = r" "nw c2 = c" "nc c2 = 2 * nc x"
    by (simp_all add: shape_components)
  have "shape x = (nb x, nh x, nw x, nc x)" by (simp add: shape_def)
  moreover have "shape (gate g c2) = (nb x, r, c, nc x)" by (simp add: e2)
  ultimately have "yields (add x (gate g c2)) (nb x, r, c, nc x)"
    using x by (rule add_repeated)
  then show ?thesis
    using c1 c2 by (simp add: gated_resnet_def Let_def)
qed

lemma gated_resnet_mismatch:
  assumes "keeps_extents conv ks"
    and "\<not> (broadcastable (nh x) (nh h') \<and> broadcastable (nw x) (nw h'))"
  shows "gated_resnet f g w bs keep x None (Some h') conv ks = None"
proof -
  let ?c1 = "causal_conv2d conv (w 0) (bs 0) (nc x) ks (concat_elu f x)"
  let ?c2 = "causal_conv2d conv (w 2) (bs 2) (2 * nc x) ks (dropout keep (concat_elu f ?c1))"
  have "shape ?c1 = (nb x, nh x, nw x, nc x)"
    using assms(1) by (simp add: shape_causal_conv2d)
  then have e1: "nb ?c1 = nb x" "nh ?c1 = nh x" "nw ?c1 = nw x"
    by (simp_all add: shape_components)
  have "shape ?c2 = (nb x, nh x, nw x, 2 * nc x)"
    using assms(1) by (simp add: shape_causal_conv2d e1)
  then have e2: "nh ?c2 = nh x" "nw ?c2 = nw x" by (simp_all add: shape_components)
  have "\<not> (broadcastable (nh ?c2) (nh (conv2d (w 3) (bs 3) (2 * nc x) (1, 1) h'))
      \<and> broadcastable (nw ?c2) (nw (conv2d (w 3) (bs 3) (2 * nc x) (1, 1) h')))"
    unfolding e2 using assms(2) by (simp add: conv2d_def)
  then have "add ?c2 (conv2d (w 3) (bs 3) (2 * nc x) (1, 1) h') = None"
    by (rule add_None_extents)
  then show ?thesis by (simp add: gated_resnet_def Let_def)
qed

subsection \<open>The embedding of the image\<close>

lemma list_all_upt: "list_all P [0..<n] \<longleftrightarrow> (\<forall>i<n. P i)"
  by (auto simp: list_all_iff)

lemma bitlen_gt: "2 ^ k \<le> n \<Longrightarrow> k < bitlen n"
proof (induction k arbitrary: n)
  case 0
  then show ?case by (subst bitlen.simps) simp
next
  case (Suc k)
  then have "2 ^ k \<le> n div 2" by simp
  then have "k < bitlen (n div 2)" by (rule Suc.IH)
  moreover have "(0::nat) < 2 ^ Suc k" by simp
  with Suc.prems have "n \<noteq> 0" by linarith
  ultimately show ?case by (subst bitlen.simps) simp
qed

lemma round_half_even_ge: "n div d \<le> round_half_even n d"
  by (simp add: round_half_even_def round_pick_def)

lemma float32_of_nat_exact:
  assumes "n \<le> 2 ^ 24"
  shows "float32_of_nat n = n"
proof (cases "n = 2 ^ 24")
  case True
  then show ?thesis
    by (simp add: float32_of_nat_def bitlen.simps round_half_even_def round_pick_def)
next
  case False
  with assms have "n < 2 ^ 24" by simp
  then have "bitlen n \<le> 24" by (rule bitlen_le)
  then show ?thesis by (simp add: float32_of_nat_def)
qed

lemma float32_of_nat_large:
  assumes "2 ^ 24 \<le> n"
  shows "2 ^ 24 \<le> float32_of_nat n"
proof -
  define l where "l = bitlen n - 24"
  from assms have "24 < bitlen n" by (rule bitlen_gt)
  then have l: "0 < l" "bitlen n = 24 + l" by (simp_all add: l_def)
  have "\<not> n < 2 ^ (23 + l)"
  proof
    assume "n < 2 ^ (23 + l)"
    then have "bitlen n \<le> 23 + l" by (rule bitlen_le)
    with l show False by simp
  qed
  then have "2 ^ 23 * 2 ^ l \<le> n" by (simp add: power_add)
  then have "2 ^ 23 * 2 ^ l div 2 ^ l \<le> n div 2 ^ l" by (rule div_le_mono)
  then have "2 ^ 23 \<le> n div 2 ^ l" by simp
  with round_half_even_ge [of n "2 ^ l"] have "2 ^ 23 \<le> round_half_even n (2 ^ l)"
    by (rule order_trans [rotated])
  then have a: "2 ^ 23 * 2 ^ l \<le> round_half_even n (2 ^ l) * 2 ^ l" by (rule mult_le_mono1)
  have "(2::nat) ^ 1 \<le> 2 ^ l" using l(1) by (intro power_increasing) simp_all
  then have "(2::nat) ^ 23 * 2 ^ 1 \<le> 2 ^ 23 * 2 ^ l" by (rule mult_le_mono2)
  then have "(2::nat) ^ 24 \<le> 2 ^ 23 * 2 ^ l" by simp
  from this a have "2 ^ 24 \<le> round_half_even n (2 ^ l) * 2 ^ l" by (rule order_trans)
  moreover have "float32_of_nat n = round_half_even n (2 ^ l) * 2 ^ l"
    unfolding float32_of_nat_def l_def using \<open>24 < bitlen n\<close> by simp
  ultimately show ?thesis by simp
qed

lemma float32_of_nat_pos: "0 < n \<Longrightarrow> 0 < float32_of_nat n"
  using float32_of_nat_exact [of n] float32_of_nat_large [of n] by (cases "n \<le> 2 ^ 24") simp_all

lemma embedding_index_exact: "0 \<le> i \<Longrightarrow> i \<le> 2 ^ 24 \<Longrightarrow> embedding_index i = i"
  using float32_of_nat_exact [of "nat i"]
  by (simp add: embedding_index_def cast_float32_def cast_int32_def nat_le_iff)

lemma embedding_index_negative: "i < 0 \<Longrightarrow> embedding_index i < 0"
  using float32_of_nat_pos [of "nat (- i)"]
  by (simp add: embedding_index_def cast_float32_def cast_int32_def)

lemma embedding_index_large:
  "2 ^ 24 \<le> i \<Longrightarrow> embedding_index i < 0 \<or> 2 ^ 24 \<le> embedding_index i"
  using float32_of_nat_large [of "nat i"]
  by (simp add: embedding_index_def cast_float32_def cast_int32_def le_nat_iff)

lemma embedding_index_range:
  assumes "n \<le> 2 ^ 24"
  shows "0 \<le> embedding_index i \<and> embedding_index i < int n \<longleftrightarrow> 0 \<le> i \<and> i < int n"
proof -
  from assms have n: "int n \<le> 2 ^ 24" by (simp add: of_nat_le_iff [of n "2 ^ 24", symmetric])
  consider "i < 0" | "0 \<le> i" "i \<le> 2 ^ 24" | "2 ^ 24 \<le> i" by linarith
  then show ?thesis
  proof cases
    case 1
    with embedding_index_negative [of i] show ?thesis by simp
  next
    case 2
    then show ?thesis by (simp add: embedding_index_exact)
  next
    case 3
    with embedding_index_large [of i] n show ?thesis by linarith
  qed
qed

lemma valid_codes_iff:
  "valid_codes n z \<longleftrightarrow>
     (\<forall>b<cb z. \<forall>r<ch z. \<forall>c<cw z.
        0 \<le> embedding_index (code z b r c) \<and> embedding_index (code z b r c) < int n)"
  by (simp add: valid_codes_def list_all_upt)

lemma valid_codes_exact:
  "n \<le> 2 ^ 24 \<Longrightarrow>
   valid_codes n z \<longleftrightarrow>
     (\<forall>b<cb z. \<forall>r<ch z. \<forall>c<cw z. 0 \<le> code z b r c \<and> code z b r c < int n)"
  by (simp only: valid_codes_iff embedding_index_range)

lemma embedding_eq:
  "embedding tbl n d (feed_float32 z) =
     (if valid_codes n z
      then Some \<lparr>nb = cb z, nh = ch z, nw = cw z, nc = d,
                 elem = (\<lambda>b r c. the (embedding_lookup tbl n (embedding_index (code z b r c))))\<rparr>
      else None)"
  by (simp add: embedding_def valid_codes_def embedding_lookup_def feed_float32_def
        embedding_index_def)

lemma forward_image_embedding_discrete:
  "forward E (image_embedding True output_size filters
      (image_input True image_height image_width filters)) =
     (if ch (fed_codes E ''images'') = image_height \<and> cw (fed_codes E ''images'') = image_width
         \<and> valid_codes output_size (fed_codes E ''images'')
      then map_option padding_backend
             (embedding
               (table E (Embedding output_size filters
                          (Input ''images'' [image_height, image_width])))
               output_size filters (feed_float32 (fed_codes E ''images'')))
      else None)"
  by (simp add: image_embedding_def image_input_def Let_def embedding_eq)

lemma forward_image_embedding_continuous:
  "forward E (image_embedding False output_size filters
      (image_input False image_height image_width filters)) =
     (if nh (fed E ''images'') = image_height \<and> nw (fed E ''images'') = image_width
         \<and> nc (fed E ''images'') = filters
      then Some (padding_backend (fed E ''images''))
      else None)"
  by (simp add: image_embedding_def image_input_def Let_def)

lemma image_embedding_yields:
  assumes "valid_image E d output_size H W F B"
  shows "yields (forward E (image_embedding d output_size F (image_input d H W F)))
           (B, H, W, Suc F)"
proof (cases d)
  case True
  with assms show ?thesis
    by (simp add: forward_image_embedding_discrete valid_image_def embedding_eq)
next
  case False
  with assms show ?thesis
    by (simp add: forward_image_embedding_continuous valid_image_def shape_components)
qed

lemma initial_streams_yields:
  assumes "yields (forward E emb) (B, H, W, C)"
  shows "yields (forward E (fst (initial_streams F emb))) (B, H, W, F)"
    and "yields (forward E (snd (initial_streams F emb))) (B, H, W, F)"
proof -
  from assms obtain t where t: "forward E emb = Some t" and st: "shape t = (B, H, W, C)"
    by (rule yieldsE)
  from st have e: "nb t = B" "nh t = H" "nw t = W" by (simp_all add: shape_components)
  show "yields (forward E (fst (initial_streams F emb))) (B, H, W, F)"
    by (simp add: initial_streams_def Let_def t shape_down_shifted_conv2d e)
  let ?a = "down_shift (down_shifted_conv2d
      (kernel E (Down_shifted_conv2d emb F (1, 3)) 0) (bias E (Down_shifted_conv2d emb F (1, 3)) 0)
      F (1, 3) t)"
  let ?b = "right_shift (down_right_shifted_conv2d
      (kernel E (Down_right_shifted_conv2d emb F (2, 1)) 0)
      (bias E (Down_right_shifted_conv2d emb F (2, 1)) 0) F (2, 1) t)"
  have a: "shape ?a = (B, H, W, F)"
    by (simp add: shape_down_shifted_conv2d e)
  have b: "shape ?b = (B, H, W, F)"
    by (simp add: shape_down_right_shifted_conv2d e)
  have "yields (add ?a ?b) (shape ?a)"
    by (rule add_shape) (simp only: a b)
  then have "yields (add ?a ?b) (B, H, W, F)" by (simp only: a)
  moreover have "forward E (snd (initial_streams F emb)) = add ?a ?b"
    by (simp add: initial_streams_def Let_def t)
  ultimately show "yields (forward E (snd (initial_streams F emb))) (B, H, W, F)"
    by simp
qed

subsection \<open>The shapes of the streams and of the logits\<close>

lemma fits_None [simp]: "fits E None s"
  by (simp add: fits_def)

lemma fits_Some: "yields (forward E n) (b, r, c, k) \<Longrightarrow> fits E (Some n) (b, r, c)"
  by (auto simp: fits_def shape_components elim!: yieldsE)

lemma forward_gated_yields:
  assumes x: "yields (forward E x) (b, r, c, k)"
    and a: "fits E a (b, r, c)"
    and h: "fits E h (b, r, c)"
    and ks: "keeps_extents conv ks"
  shows "yields (forward E (Gated_resnet x a h conv ks rate)) (b, r, c, k)"
proof -
  from x obtain t where t: "forward E x = Some t" and st: "shape t = (b, r, c, k)"
    by (rule yieldsE)
  from st have e: "nb t = b" "nh t = r" "nw t = c" "nc t = k"
    by (simp_all add: shape_components)
  obtain a' where a': "optional (map_option (forward E) a) = Some a'"
    and ea: "\<And>u. a' = Some u \<Longrightarrow> (nb u, nh u, nw u) = (nb t, nh t, nw t)"
    using a by (cases a) (auto simp: fits_def e split: option.splits)
  obtain h' where h': "optional (map_option (forward E) h) = Some h'"
    and eh: "\<And>u. h' = Some u \<Longrightarrow> (nb u, nh u, nw u) = (nb t, nh t, nw t)"
    using h by (cases h) (auto simp: fits_def e split: option.splits)
  have "yields (gated_resnet (elu E) (sigmoid E)
          (kernel E (Gated_resnet x a h conv ks rate)) (bias E (Gated_resnet x a h conv ks rate))
          (mask E (Gated_resnet x a h conv ks rate)) t a' h' conv ks) (nb t, nh t, nw t, nc t)"
    using ks ea eh by (rule gated_resnet_shape)
  then show ?thesis by (simp add: t a' h' e)
qed

lemma streams_0 [simp]: "streams h rate 0 s = s"
  by (simp add: streams_def)

lemma streams_Suc: "streams h rate (Suc n) s = gated_layer h rate n (streams h rate n s)"
  by (simp add: streams_def)

lemma gated_layer_fst:
  "fst (gated_layer h rate l s) = Gated_resnet (fst s) None h By_down_shifted_conv2d (2, 3) rate"
  by (simp add: gated_layer_def Let_def)

lemma gated_layer_snd:
  "snd (gated_layer h rate l s) =
     Gated_resnet (snd s) (Some (fst (gated_layer h rate l s))) h
       By_down_right_shifted_conv2d (2, 2) rate"
  by (simp add: gated_layer_def Let_def)

lemma streams_yield:
  assumes "yields (forward E (fst s)) (b, r, c, k)"
    and "yields (forward E (snd s)) (b, r, c, k)"
    and "fits E h (b, r, c)"
  shows "yields (forward E (fst (streams h rate n s))) (b, r, c, k)
       \<and> yields (forward E (snd (streams h rate n s))) (b, r, c, k)"
proof (induction n)
  case 0
  show ?case using assms by simp
next
  case (Suc n)
  let ?s = "streams h rate n s"
  have top: "yields (forward E (fst (gated_layer h rate n ?s))) (b, r, c, k)"
    unfolding gated_layer_fst
    using Suc assms(3) by (intro forward_gated_yields) simp_all
  have "yields (forward E (snd (gated_layer h rate n ?s))) (b, r, c, k)"
    unfolding gated_layer_snd
    using Suc assms(3) top by (intro forward_gated_yields fits_Some) simp_all
  with top show ?case by (simp add: streams_Suc)
qed

lemma forward_gated_broadcast:
  assumes x: "yields (forward E x) (b, r0, c0, k)"
    and r0: "r0 = 1 \<or> r0 = r" and c0: "c0 = 1 \<or> c0 = c"
    and a: "fits E a (b, r, c)"
    and h: "yields (forward E h) (b, r, c, k')"
    and ks: "keeps_extents conv ks"
  shows "yields (forward E (Gated_resnet x a (Some h) conv ks rate)) (b, r, c, k)"
proof -
  from x obtain t where t: "forward E x = Some t" and st: "shape t = (b, r0, c0, k)"
    by (rule yieldsE)
  from st have e: "nb t = b" "nh t = r0" "nw t = c0" "nc t = k"
    by (simp_all add: shape_components)
  from h obtain u where u: "forward E h = Some u" and su: "shape u = (b, r, c, k')"
    by (rule yieldsE)
  obtain a' where a': "optional (map_option (forward E) a) = Some a'"
    and ea: "\<And>v. a' = Some v \<Longrightarrow> (nb v, nh v, nw v) = (nb t, r, c)"
    using a by (cases a) (auto simp: fits_def e split: option.splits)
  have "yields (gated_resnet (elu E) (sigmoid E)
          (kernel E (Gated_resnet x a (Some h) conv ks rate))
          (bias E (Gated_resnet x a (Some h) conv ks rate))
          (mask E (Gated_resnet x a (Some h) conv ks rate)) t a' (Some u) conv ks)
          (nb t, r, c, nc t)"
    using ks _ _ ea
    by (rule gated_resnet_broadcast) (use r0 c0 su in \<open>simp_all add: e shape_components\<close>)
  then show ?thesis by (simp add: t a' u e)
qed

lemma forward_gated_mismatch:
  assumes x: "yields (forward E x) (b, r, c, k)"
    and h: "yields (forward E h) (b', r', c', k')"
    and m: "\<not> (broadcastable r r' \<and> broadcastable c c')"
    and ks: "keeps_extents conv ks"
  shows "forward E (Gated_resnet x None (Some h) conv ks rate) = None"
proof -
  from x obtain t where t: "forward E x = Some t" and st: "shape t = (b, r, c, k)"
    by (rule yieldsE)
  from h obtain u where u: "forward E h = Some u" and su: "shape u = (b', r', c', k')"
    by (rule yieldsE)
  from st su m have "\<not> (broadcastable (nh t) (nh u) \<and> broadcastable (nw t) (nw u))"
    by (simp add: shape_components)
  with ks show ?thesis by (simp add: t u gated_resnet_mismatch)
qed

lemma streams_fail:
  assumes "forward E (Gated_resnet (fst s) None h By_down_shifted_conv2d (2, 3) rate) = None"
  shows "forward E (fst (streams h rate (Suc n) s)) = None
       \<and> forward E (snd (streams h rate (Suc n) s)) = None"
proof (induction n)
  case 0
  show ?case using assms by (simp add: streams_Suc gated_layer_def Let_def split: option.splits)
next
  case (Suc n)
  then show ?case
    by (simp add: streams_Suc [of h rate "Suc n"] gated_layer_def Let_def)
qed

lemma logits_yield:
  "yields (forward E x) (b, r, c, k) \<Longrightarrow>
   yields (forward E (logits_of output_size x)) (b, r, c, output_size)"
  by (auto simp: logits_of_def shape_components elim!: yieldsE)

lemma PixelCNN_yields:
  assumes "valid_image E d output_size H W F batch"
  shows "yields (forward E (model_outputs (PixelCNN output_size H W d num_layers F rate)))
           (batch, H, W, output_size)"
proof -
  let ?emb = "image_embedding d output_size F (image_input d H W F)"
  have emb: "yields (forward E ?emb) (batch, H, W, Suc F)"
    using assms by (rule image_embedding_yields)
  have "yields (forward E (snd (streams None rate num_layers (initial_streams F ?emb))))
          (batch, H, W, F)"
    using streams_yield [OF initial_streams_yields [OF emb], of None rate num_layers]
    by simp
  then show ?thesis by (simp add: PixelCNN_def Let_def logits_yield)
qed

subsection \<open>The shape of the conditioning\<close>

lemma fold_upsample_Suc:
  "fold (upsample F) [0..<Suc n] x = upsample F n (fold (upsample F) [0..<n] x)"
  by simp

lemma upsample_yields:
  "yields (forward E x) (b, r, c, k) \<Longrightarrow>
   yields (forward E (upsample F i x)) (b, r * 2, c * 2, F)"
  by (auto simp: upsample_def Let_def shape_components elim!: yieldsE)

lemma fold_upsample_yields:
  assumes "yields (forward E x) (b, r, c, k)"
  shows "yields (forward E (fold (upsample F) [0..<n] x))
           (b, r * 2 ^ n, c * 2 ^ n, if n = 0 then k else F)"
proof (induction n)
  case 0
  show ?case using assms by simp
next
  case (Suc n)
  from upsample_yields [OF Suc, of F n] show ?case
    by (simp only: fold_upsample_Suc) (simp add: mult_ac)
qed

lemma conditional_embedding_yields:
  assumes "valid_conditioning E cc num_classes r c V b"
  shows "yields (forward E (conditional_embedding_of cc num_classes V n F
            (conditional_input cc r c V)))
           (b, r * 2 ^ n, c * 2 ^ n, if n = 0 then V else F)"
proof -
  have "yields (forward E (if cc then Embedding num_classes V (conditional_input cc r c V)
                           else conditional_input cc r c V)) (b, r, c, V)"
    using assms
    by (cases cc)
       (simp_all add: valid_conditioning_def conditional_input_def embedding_eq shape_components)
  from fold_upsample_yields [OF this] show ?thesis
    by (simp only: conditional_embedding_of_def Let_def)
qed

lemma ConditionalPixelCNN_yields:
  assumes img: "valid_image E d output_size H W F batch"
    and cond: "valid_conditioning E cc num_classes r c V batch"
    and res: "num_layers = 0 \<or> (H = r * 2 ^ n \<and> W = c * 2 ^ n)"
  shows "yields (forward E (model_outputs
            (ConditionalPixelCNN output_size V H W d r c cc num_classes n num_layers F rate)))
           (batch, H, W, output_size)"
proof -
  let ?emb = "image_embedding d output_size F (image_input d H W F)"
  let ?h = "conditional_embedding_of cc num_classes V n F (conditional_input cc r c V)"
  have emb: "yields (forward E ?emb) (batch, H, W, Suc F)"
    using img by (rule image_embedding_yields)
  note init = initial_streams_yields [OF emb, of F]
  have "yields (forward E (snd (streams (Some ?h) rate num_layers (initial_streams F ?emb))))
          (batch, H, W, F)"
  proof (cases "num_layers = 0")
    case True
    then show ?thesis using init by simp
  next
    case False
    with res have "H = r * 2 ^ n" "W = c * 2 ^ n" by simp_all
    with conditional_embedding_yields [OF cond, of n F]
    have "fits E (Some ?h) (batch, H, W)" by (intro fits_Some) simp
    from streams_yield [OF init this, of rate num_layers] show ?thesis by simp
  qed
  then show ?thesis by (simp add: ConditionalPixelCNN_def Let_def logits_yield)
qed

subsection \<open>The border channel\<close>

lemma E0_image: "valid_image E0 True 4 2 2 1 1"
  by (auto simp: valid_image_def valid_codes_exact E0_def)

lemma E0_conditioning: "valid_conditioning E0 True 3 1 1 2 1"
  by (auto simp: valid_conditioning_def valid_codes_exact E0_def)

lemma padding_backend_elem:
  "b < nb z \<Longrightarrow> r < nh z \<Longrightarrow> c < nw z \<Longrightarrow>
   elem (padding_backend z) b r c k = (if k < nc z then elem z b r c k else 1)"
  by (simp add: padding_backend_def tf_pad_def)

text \<open>
  C7. The padding appends exactly one channel on the right of the channel axis, holding
  the constant 1 at every position, and changes no other entry. For a discrete image
  with valid codes the tensor that enters the initial causal convolutions is the
  embedding of width filters so padded: it has filters + 1 channels, the last is 1
  everywhere, and the others are the rows of the lookup table selected by the codes.
\<close>

theorem border_channel:
  "(b < nb z \<and> r < nh z \<and> c < nw z \<longrightarrow>
      nc (padding_backend z) = nc z + 1
      \<and> elem (padding_backend z) b r c (nc z) = 1
      \<and> (\<forall>k<nc z. elem (padding_backend z) b r c k = elem z b r c k))
   \<and> (valid_image E True output_size H W F batch \<longrightarrow>
      (\<exists>t. forward E (image_embedding True output_size F (image_input True H W F)) = Some t
         \<and> shape t = (batch, H, W, F + 1)
         \<and> (\<forall>b<batch. \<forall>r<H. \<forall>c<W.
              elem t b r c F = 1
              \<and> (\<forall>k<F. elem t b r c k =
                   table E (Embedding output_size F (Input ''images'' [H, W]))
                     (nat (embedding_index (code (fed_codes E ''images'') b r c))) k))))"
proof (rule conjI; rule impI)
  assume "b < nb z \<and> r < nh z \<and> c < nw z"
  then show "nc (padding_backend z) = nc z + 1
      \<and> elem (padding_backend z) b r c (nc z) = 1
      \<and> (\<forall>k<nc z. elem (padding_backend z) b r c k = elem z b r c k)"
    using shape_padding_backend [of z]
    by (simp add: padding_backend_elem shape_components del: shape_padding_backend)
next
  assume v: "valid_image E True output_size H W F batch"
  let ?z = "fed_codes E ''images''"
  let ?tbl = "table E (Embedding output_size F (Input ''images'' [H, W]))"
  let ?e = "\<lparr>nb = cb ?z, nh = ch ?z, nw = cw ?z, nc = F,
             elem = (\<lambda>b r c.
               the (embedding_lookup ?tbl output_size (embedding_index (code ?z b r c))))\<rparr>"
  from v have f: "forward E (image_embedding True output_size F (image_input True H W F)) =
      Some (padding_backend ?e)"
    by (simp add: forward_image_embedding_discrete valid_image_def embedding_eq)
  from v have ext: "cb ?z = batch" "ch ?z = H" "cw ?z = W" and vc: "valid_codes output_size ?z"
    by (simp_all add: valid_image_def)
  have "elem (padding_backend ?e) b r c F = 1
      \<and> (\<forall>k<F. elem (padding_backend ?e) b r c k =
            ?tbl (nat (embedding_index (code ?z b r c))) k)"
    if "b < batch" "r < H" "c < W" for b r c
  proof -
    from vc that have "0 \<le> embedding_index (code ?z b r c)
        \<and> embedding_index (code ?z b r c) < int output_size"
      by (simp add: valid_codes_iff ext)
    then show ?thesis
      using that by (simp add: padding_backend_elem ext embedding_lookup_def)
  qed
  then show "\<exists>t. forward E (image_embedding True output_size F (image_input True H W F)) = Some t
         \<and> shape t = (batch, H, W, F + 1)
         \<and> (\<forall>b<batch. \<forall>r<H. \<forall>c<W.
              elem t b r c F = 1
              \<and> (\<forall>k<F. elem t b r c k = ?tbl (nat (embedding_index (code ?z b r c))) k))"
    by (simp add: f ext)
qed

theorem border_channel_witness:
  "\<exists>t. forward E0 (image_embedding True 4 1 (image_input True 2 2 1)) = Some t
       \<and> shape t = (1, 2, 2, 2) \<and> elem t 0 1 1 1 = 1 \<and> elem t 0 1 1 0 = 3"
proof -
  from border_channel [of 0 "fed E0 ''x''" 0 0 E0 4 2 2 1 1] E0_image
  obtain t where t: "forward E0 (image_embedding True 4 1 (image_input True 2 2 1)) = Some t"
    "shape t = (1, 2, 2, 2)"
    and all: "\<forall>b<1. \<forall>r<2. \<forall>c<2. elem t b r c 1 = 1
       \<and> (\<forall>k<1. elem t b r c k =
             table E0 (Embedding 4 1 (Input ''images'' [2, 2]))
               (nat (embedding_index (code (fed_codes E0 ''images'') b r c))) k)"
    by auto
  from all have "elem t 0 1 1 1 = 1 \<and> elem t 0 1 1 0 =
      table E0 (Embedding 4 1 (Input ''images'' [2, 2]))
        (nat (embedding_index (code (fed_codes E0 ''images'') 0 1 1))) 0"
    by simp
  then have "elem t 0 1 1 1 = 1 \<and> elem t 0 1 1 0 = 3"
    by (simp add: E0_def embedding_index_exact)
  with t show ?thesis by blast
qed

subsection \<open>Valid codes and the declared image input\<close>

lemma valid_codes_targets: "valid_codes 1000 (targets img)"
proof -
  have "0 \<le> pack_digits x y z \<and> pack_digits x y z < 1000" for x y z
    using pack_digits_range [of x y z] by simp
  then show ?thesis by (simp add: valid_codes_exact targets_def)
qed

lemma embedding_index_2_24_1: "embedding_index 16777217 = 16777216"
  by (simp add: embedding_index_def cast_float32_def cast_int32_def float32_of_nat_def
        bitlen.simps round_half_even_def round_pick_def)

lemma embedding_index_2_24_3: "embedding_index 16777219 = 16777220"
  by (simp add: embedding_index_def cast_float32_def cast_int32_def float32_of_nat_def
        bitlen.simps round_half_even_def round_pick_def)

lemma E3_image: "valid_image E3 True 16777217 1 1 1 1"
  by (simp add: valid_image_def valid_codes_iff E3_def embedding_index_2_24_1)

text \<open>
  C9. The placeholder of a discrete image is declared without a dtype, so a code
  reaches the lookup through binary32, and the index read for it is not always the
  code. The model built by PixelCNN with the output size 2^24 + 1 takes an image of a
  pixel of that same code, which is no index of a table of so many rows: the index
  read is 2^24, the embedding is the row 2^24 of the table, and the model gives its
  logits. And for the code 2^24 + 3 the index read is 2^24 + 4, so that in a model with
  the output size 2^24 + 4 this code, which is below the output size, is looked up
  outside the table.
\<close>

theorem embedding_index_rounded:
  "code (fed_codes E3 ''images'') 0 0 0 = 16777217
   \<and> model_inputs (PixelCNN 16777217 1 1 True 1 1 0) = [Input ''images'' [1, 1]]
   \<and> embedding_index 16777217 = 16777216
   \<and> (\<exists>t. forward E3 (Embedding 16777217 1 (Input ''images'' [1, 1])) = Some t
          \<and> elem t 0 0 0 0 =
              table E3 (Embedding 16777217 1 (Input ''images'' [1, 1])) 16777216 0)
   \<and> yields (forward E3 (model_outputs (PixelCNN 16777217 1 1 True 1 1 0)))
        (1, 1, 1, 16777217)
   \<and> embedding_index 16777219 = 16777220
   \<and> embedding_lookup tbl 16777220 (embedding_index 16777219) = None"
proof -
  have 1: "code (fed_codes E3 ''images'') 0 0 0 = 16777217"
    by (simp add: E3_def)
  have 2: "model_inputs (PixelCNN 16777217 1 1 True 1 1 0) = [Input ''images'' [1, 1]]"
    by (simp add: PixelCNN_def image_input_def Let_def)
  from E3_image have v: "valid_codes 16777217 (fed_codes E3 ''images'')"
    and e: "ch (fed_codes E3 ''images'') = 1" "cw (fed_codes E3 ''images'') = 1"
    by (simp_all add: valid_image_def)
  have 3: "\<exists>t. forward E3 (Embedding 16777217 1 (Input ''images'' [1, 1])) = Some t
          \<and> elem t 0 0 0 0 =
              table E3 (Embedding 16777217 1 (Input ''images'' [1, 1])) 16777216 0"
    using v e by (simp add: Let_def embedding_eq embedding_lookup_def 1 embedding_index_2_24_1)
  have 4: "yields (forward E3 (model_outputs (PixelCNN 16777217 1 1 True 1 1 0)))
        (1, 1, 1, 16777217)"
    using E3_image by (rule PixelCNN_yields)
  have 5: "embedding_lookup tbl 16777220 (embedding_index 16777219) = None"
    by (simp add: embedding_lookup_def embedding_index_2_24_3)
  from 1 2 embedding_index_2_24_1 3 4 embedding_index_2_24_3 5 show ?thesis by (intro conjI)
qed

lemma streams_None:
  assumes "forward E (fst s) = None" and "forward E (snd s) = None"
  shows "forward E (fst (streams h rate n s)) = None
       \<and> forward E (snd (streams h rate n s)) = None"
proof (induction n)
  case 0
  show ?case using assms by simp
next
  case (Suc n)
  then show ?case
    by (simp add: streams_Suc gated_layer_def Let_def)
qed

lemma initial_streams_None:
  "forward E emb = None \<Longrightarrow>
   forward E (fst (initial_streams F emb)) = None
   \<and> forward E (snd (initial_streams F emb)) = None"
  by (simp add: initial_streams_def Let_def)

lemma logits_None: "forward E x = None \<Longrightarrow> forward E (logits_of n x) = None"
  by (simp add: logits_of_def)

lemma continuous_mismatch_None:
  assumes "nc (fed E ''images'') \<noteq> F"
  shows "forward E (logits_of output_size (snd (streams h rate n
           (initial_streams F (image_embedding False output_size F
              (image_input False H W F)))))) = None"
proof -
  have "forward E (image_embedding False output_size F (image_input False H W F)) = None"
    using assms by (simp add: forward_image_embedding_continuous)
  from initial_streams_None [OF this, of F] show ?thesis
    by (intro logits_None) (simp add: streams_None)
qed

text \<open>
  C10. When the image is not discrete, the image input that PixelCNN and
  ConditionalPixelCNN declare has the shape (batch, image height, image width,
  filters): its channel depth is the hyperparameter filters, not a depth chosen
  independently. A fed tensor matches the declared input exactly if its height, width
  and depth are these, and a continuous image of another depth makes the run of either
  model fail.
\<close>

theorem continuous_input_depth:
  "model_inputs (PixelCNN output_size H W False num_layers F rate) =
       [Input ''images'' [H, W, F]]
   \<and> model_inputs (ConditionalPixelCNN output_size V H W False r c cc num_classes n
        num_layers F rate) = [Input ''images'' [H, W, F], conditional_input cc r c V]
   \<and> (forward E (Input ''images'' [H, W, F]) \<noteq> None \<longleftrightarrow>
        nh (fed E ''images'') = H \<and> nw (fed E ''images'') = W \<and> nc (fed E ''images'') = F)
   \<and> (nc (fed E ''images'') \<noteq> F \<longrightarrow>
        forward E (model_outputs (PixelCNN output_size H W False num_layers F rate)) = None
        \<and> forward E (model_outputs (ConditionalPixelCNN output_size V H W False r c cc
             num_classes n num_layers F rate)) = None)"
  using continuous_mismatch_None [of E F]
  by (simp add: PixelCNN_def ConditionalPixelCNN_def image_input_def Let_def)

theorem continuous_input_depth_witness:
  "forward E0 (Input ''images'' [2, 2, 2]) \<noteq> None
   \<and> forward E0 (Input ''images'' [2, 2, 3]) = None
   \<and> forward E0 (model_outputs (PixelCNN 4 2 2 False 1 3 0)) = None"
  using continuous_input_depth [of 4 2 2 1 2 0 2 1 1 True 3 1 E0]
    continuous_input_depth [of 4 2 2 1 3 0 2 1 1 True 3 1 E0]
  by (simp add: E0_def)

subsection \<open>The wiring of the two streams\<close>

lemma plain_upsample: "plain x \<Longrightarrow> plain (upsample F i x)"
  by (auto simp: plain_def upsample_def Let_def)

lemma plain_fold_upsample: "plain x \<Longrightarrow> plain (fold (upsample F) [0..<n] x)"
  by (induction n) (simp_all add: plain_upsample)

lemma plain_conditional_embedding:
  "plain (conditional_embedding_of cc num_classes V n F (conditional_input cc r c V))"
  unfolding conditional_embedding_of_def Let_def
  by (rule plain_fold_upsample) (simp add: plain_def conditional_input_def)

lemma plain_image_embedding:
  "plain (image_embedding d output_size F (image_input d H W F))"
  by (simp add: plain_def image_embedding_def image_input_def)

lemma top_no_merge:
  assumes "plain emb" and "plain_opt h"
  shows "\<forall>y\<in>subnodes (fst (streams h rate n (initial_streams F emb))). \<not> merges y"
proof (induction n)
  case 0
  show ?case using assms(1) by (auto simp: initial_streams_def Let_def plain_def)
next
  case (Suc n)
  then show ?case
    using assms(2)
    by (auto simp: streams_Suc gated_layer_def Let_def plain_def plain_opt_def
          split: option.splits)
qed

lemma top_left_merges: "merges (snd (streams h rate j (initial_streams F emb)))"
  by (cases j) (simp_all add: streams_Suc gated_layer_def initial_streams_def Let_def)

lemma top_never_fed_from_top_left:
  assumes "plain emb" and "plain_opt h"
  shows "snd (streams h rate j (initial_streams F emb))
           \<notin> subnodes (fst (streams h rate n (initial_streams F emb)))"
  using top_no_merge [OF assms, of rate n F] top_left_merges [of h rate j F emb] by blast

text \<open>
  C6. In every repetition of the main loop of either network, the gated block of the
  top-left stream is given the top stream of the same repetition, the output of the
  top stream's gated block, as its second stream, after that block is built; the top
  stream's block has no second stream, and no node of the top-left stream occurs
  anywhere in the graph of the top stream.
\<close>

theorem top_left_consumes_top:
  assumes "h = None \<or>
           h = Some (conditional_embedding_of cc num_classes V n F (conditional_input cc r c V))"
    and "s0 = initial_streams F (image_embedding d output_size F (image_input d H W F))"
    and "i < num_layers"
  shows "fst (streams h rate (Suc i) s0) =
           Gated_resnet (fst (streams h rate i s0)) None h By_down_shifted_conv2d (2, 3) rate
       \<and> snd (streams h rate (Suc i) s0) =
           Gated_resnet (snd (streams h rate i s0)) (Some (fst (streams h rate (Suc i) s0))) h
             By_down_right_shifted_conv2d (2, 2) rate
       \<and> (\<forall>j. snd (streams h rate j s0) \<notin> subnodes (fst (streams h rate num_layers s0)))
       \<and> model_outputs (PixelCNN output_size H W d num_layers F rate) =
           logits_of output_size (snd (streams None rate num_layers s0))
       \<and> model_outputs (ConditionalPixelCNN output_size V H W d r c cc num_classes n
             num_layers F rate) =
           logits_of output_size (snd (streams
             (Some (conditional_embedding_of cc num_classes V n F (conditional_input cc r c V)))
             rate num_layers s0))"
proof -
  have "plain_opt h"
    using assms(1) by (auto simp: plain_opt_def plain_conditional_embedding)
  then have "\<forall>j. snd (streams h rate j s0) \<notin> subnodes (fst (streams h rate num_layers s0))"
    unfolding assms(2)
    by (intro allI top_never_fed_from_top_left plain_image_embedding)
  then show ?thesis
    by (simp add: streams_Suc gated_layer_def Let_def PixelCNN_def ConditionalPixelCNN_def
          assms(2))
qed

theorem top_left_consumes_top_witness:
  "fst (streams None 0 1 (initial_streams 1 (image_embedding True 4 1 (image_input True 2 2 1))))
     = Gated_resnet
         (fst (streams None 0 0
            (initial_streams 1 (image_embedding True 4 1 (image_input True 2 2 1)))))
         None None By_down_shifted_conv2d (2, 3) 0
   \<and> snd (streams None 0 1 (initial_streams 1 (image_embedding True 4 1 (image_input True 2 2 1))))
       \<notin> subnodes (fst (streams None 0 1
             (initial_streams 1 (image_embedding True 4 1 (image_input True 2 2 1)))))"
proof -
  let ?s0 = "initial_streams 1 (image_embedding True 4 1 (image_input True 2 2 1))"
  have "(0::nat) < 1" by simp
  from top_left_consumes_top [of None True 3 2 1 1 1 1 ?s0 True 4 2 2 0 1 0, OF _ refl this]
  have 1: "fst (streams None 0 (Suc 0) ?s0) =
           Gated_resnet (fst (streams None 0 0 ?s0)) None None By_down_shifted_conv2d (2, 3) 0"
    and 2: "\<forall>j. snd (streams None 0 j ?s0) \<notin> subnodes (fst (streams None 0 1 ?s0))"
    by blast+
  from 2 have "snd (streams None 0 1 ?s0) \<notin> subnodes (fst (streams None 0 1 ?s0))" ..
  with 1 show ?thesis by (simp only: One_nat_def) simp
qed

subsection \<open>The gated blocks and their conditioning\<close>














lemma yields_unique: "yields res s \<Longrightarrow> yields res s' \<Longrightarrow> s = s'"
  by (cases res) simp_all

lemma E1_conditioning: "valid_conditioning E1 True 10 1 1 32 1"
  by (auto simp: valid_conditioning_def valid_codes_exact E1_def)

lemma E1_image: "valid_image E1 True 1000 32 32 64 1"
  by (auto simp: valid_image_def valid_codes_exact E1_def)

lemma E2_image: "valid_image E2 True 4 1 1 1 1"
  by (auto simp: valid_image_def valid_codes_exact E2_def)

lemma E2_conditioning: "valid_conditioning E2 True 3 1 1 2 1"
  by (auto simp: valid_conditioning_def valid_codes_exact E2_def E0_def)


lemma ConditionalPixelCNN_mismatch:
  assumes img: "valid_image E d output_size H W F batch"
    and cond: "valid_conditioning E cc num_classes r c V batch"
    and m: "\<not> (broadcastable H (r * 2 ^ n) \<and> broadcastable W (c * 2 ^ n))"
  shows "forward E (model_outputs (ConditionalPixelCNN output_size V H W d r c cc num_classes n
           (Suc num_layers) F rate)) = None"
proof -
  let ?emb = "image_embedding d output_size F (image_input d H W F)"
  let ?h = "conditional_embedding_of cc num_classes V n F (conditional_input cc r c V)"
  have "yields (forward E (fst (initial_streams F ?emb))) (batch, H, W, F)"
    using image_embedding_yields [OF img] by (rule initial_streams_yields)
  from this conditional_embedding_yields [OF cond] m
  have "forward E (Gated_resnet (fst (initial_streams F ?emb)) None (Some ?h)
          By_down_shifted_conv2d (2, 3) rate) = None"
    by (rule forward_gated_mismatch) simp
  from streams_fail [OF this, of num_layers] show ?thesis
    by (simp add: ConditionalPixelCNN_def Let_def logits_None)
qed


text \<open>
  C4. ConditionalPixelCNN for images of one pixel, with a conditioning of one position
  and one preprocess layer, on a valid image and a valid class label: the upsampled
  conditioning has 2 by 2 positions, the sums inside the gated blocks repeat the
  one-pixel streams along it, and the model gives logits of the shape (1, 2, 2, 4),
  not (1, 1, 1, 4) as the image has. With the arguments that the training script gives
  its factory, but four preprocess layers instead of five, the model gives no logits
  for a valid image of 32 by 32 pixels and a valid class label.
\<close>

theorem logits_not_image_shaped:
  "valid_image E2 True 4 1 1 1 1
   \<and> valid_conditioning E2 True 3 1 1 2 1
   \<and> model_inputs (ConditionalPixelCNN 4 2 1 1 True 1 1 True 3 1 1 1 0) =
       [Input ''images'' [1, 1], Input ''inputs'' [1, 1]]
   \<and> yields (forward E2 (model_outputs (ConditionalPixelCNN 4 2 1 1 True 1 1 True 3 1 1 1 0)))
        (1, 2, 2, 4)
   \<and> \<not> yields (forward E2 (model_outputs
          (ConditionalPixelCNN 4 2 1 1 True 1 1 True 3 1 1 1 0))) (1, 1, 1, 4)
   \<and> valid_image E1 True 1000 32 32 64 1
   \<and> valid_conditioning E1 True 10 1 1 32 1
   \<and> forward E1 (model_outputs
        (ConditionalPixelCNN 1000 32 32 32 True 1 1 True 10 4 6 64 (1 / 10))) = None"
proof -
  let ?emb = "image_embedding True 4 1 (image_input True 1 1 1)"
  let ?h = "conditional_embedding_of True 3 2 1 1 (conditional_input True 1 1 2)"
  let ?s = "initial_streams 1 ?emb"
  let ?top = "Gated_resnet (fst ?s) None (Some ?h) By_down_shifted_conv2d (2, 3) 0"
  let ?top_left = "Gated_resnet (snd ?s) (Some ?top) (Some ?h) By_down_right_shifted_conv2d
      (2, 2) 0"
  have 1: "model_inputs (ConditionalPixelCNN 4 2 1 1 True 1 1 True 3 1 1 1 0) =
       [Input ''images'' [1, 1], Input ''inputs'' [1, 1]]"
    by (simp add: ConditionalPixelCNN_def image_input_def conditional_input_def Let_def)
  note init = initial_streams_yields [OF image_embedding_yields [OF E2_image], of 1]
  have h: "yields (forward E2 ?h) (1, 2, 2, 1)"
    using conditional_embedding_yields [OF E2_conditioning, of 1 1] by simp
  have top: "yields (forward E2 ?top) (1, 2, 2, 1)"
    using init(1) _ _ _ h by (rule forward_gated_broadcast) simp_all
  have "yields (forward E2 ?top_left) (1, 2, 2, 1)"
    using init(2) _ _ fits_Some [OF top] h by (rule forward_gated_broadcast) simp_all
  then have "yields (forward E2 (logits_of 4 ?top_left)) (1, 2, 2, 4)"
    by (rule logits_yield)
  then have 2: "yields (forward E2 (model_outputs
      (ConditionalPixelCNN 4 2 1 1 True 1 1 True 3 1 1 1 0))) (1, 2, 2, 4)"
    by (simp add: ConditionalPixelCNN_def Let_def streams_def gated_layer_def)
  have 3: "\<not> yields (forward E2 (model_outputs
          (ConditionalPixelCNN 4 2 1 1 True 1 1 True 3 1 1 1 0))) (1, 1, 1, 4)"
    using yields_unique [OF 2] by fastforce
  have 4: "forward E1 (model_outputs
        (ConditionalPixelCNN 1000 32 32 32 True 1 1 True 10 4 6 64 (1 / 10))) = None"
    using ConditionalPixelCNN_mismatch [OF E1_image E1_conditioning, of 4 5 "1 / 10"]
    by (simp add: broadcastable_def)
  from E2_image E2_conditioning 1 2 3 E1_image E1_conditioning 4 show ?thesis by (intro conjI)
qed

subsection \<open>Causality of the tensor operations\<close>





lemma agree_refl [simp]: "agree P x x"
  by (simp add: agree_def)






















subsection \<open>Causality of the gated block\<close>







subsection \<open>Causality of the network\<close>






















end
